theory Spec2Isabelle
  imports Main "HOL-Library.Word"
begin

unbundle bit_operations_syntax

section \<open>The ledger: contracts/TimeCrate.sol\<close>

text \<open>
  A function of the contract is embedded as a function on the contract's storage:
  a call either reverts with a reason (\<open>Inl\<close>), which leaves the storage as it was
  before the call, or returns the updated storage (\<open>Inr\<close>). \<open>block.timestamp\<close> and
  \<open>msg.sender\<close> are arguments. Solidity's \<open>uint256\<close> is a 256-bit word, an
  \<open>address\<close> a 160-bit word.
\<close>

type_synonym uint256 = "256 word"
type_synonym address = "160 word"

record Crate =
  ipfsCid :: string
  releaseTime :: uint256
  keeperUrls :: "string list"
  released :: bool
  createdAt :: uint256

datatype event =
  CrateCreated uint256 address string uint256 "string list"
| CrateReleased uint256 address uint256

text \<open>
  The storage of the contract: its own two variables, and the variables of the
  ERC-721 base it inherits that its own functions read or write (token owners,
  balances, token URIs). A mapping of Solidity is a total function whose default is
  zero. The events the contract itself emits are kept in the order of emission; a
  call that reverts emits none.
\<close>

record storage =
  tokenIdCounter :: uint256
  crateInfo :: "uint256 \<Rightarrow> Crate"
  owners :: "uint256 \<Rightarrow> address"
  balances :: "address \<Rightarrow> uint256"
  tokenURIs :: "uint256 \<Rightarrow> string"
  events :: "event list"

datatype revert =
  InvalidRecipientAddress
| ReleaseTimeMustBeInTheFuture
| IpfsCidCannotBeEmpty
| MustProvideAtLeastOneKeeperUrl
| TokenDoesNotExist
| OnlyTokenOwnerCanMarkAsReleased
| ReleaseTimeHasNotPassed
| AlreadyMarkedAsReleased
| ERC721InvalidTokenId
| ERC721MintToZeroAddress
| ERC721TokenAlreadyMinted
| ERC721TransferToNonReceiver
| ERC721URISetOfNonexistentToken

definition zeroCrate :: Crate where
  "zeroCrate = \<lparr>ipfsCid = [], releaseTime = 0, keeperUrls = [], released = False, createdAt = 0\<rparr>"

text \<open>The storage after the constructor has run.\<close>

definition deployed :: storage where
  "deployed =
     \<lparr>tokenIdCounter = 0, crateInfo = (\<lambda>_. zeroCrate), owners = (\<lambda>_. 0),
      balances = (\<lambda>_. 0), tokenURIs = (\<lambda>_. []), events = []\<rparr>"

subsection \<open>The inherited ERC-721 base\<close>

text \<open>
  The ERC-721 base that the contract imports is not part of the repository; the
  spec names it only as the ownership ledger. The functions of the base that the
  contract's own functions call are written here as the imported implementation has
  them.
\<close>

text \<open>Modelled from the spec: \<open>_ownerOf\<close> of the absent base, the owner of a token, or
  zero when the token does not exist.\<close>

definition ownerOf_internal :: "storage \<Rightarrow> uint256 \<Rightarrow> address" where
  "ownerOf_internal s tokenId = owners s tokenId"

text \<open>Modelled from the spec: \<open>ownerOf\<close> of the absent base, which reverts for a
  token that does not exist.\<close>

definition ownerOf :: "storage \<Rightarrow> uint256 \<Rightarrow> revert + address" where
  "ownerOf s tokenId =
     (if ownerOf_internal s tokenId = 0 then Inl ERC721InvalidTokenId
      else Inr (ownerOf_internal s tokenId))"

text \<open>Modelled from the spec: \<open>_mint\<close> of the absent base, which gives a token that
  does not exist yet to an address other than zero.\<close>

definition mint :: "storage \<Rightarrow> address \<Rightarrow> uint256 \<Rightarrow> revert + storage" where
  "mint s to tokenId =
     (if to = 0 then Inl ERC721MintToZeroAddress
      else if ownerOf_internal s tokenId \<noteq> 0 then Inl ERC721TokenAlreadyMinted
      else Inr (s\<lparr>balances := (balances s)(to := balances s to + 1),
                  owners := (owners s)(tokenId := to)\<rparr>))"

text \<open>
  Modelled from the spec: \<open>_safeMint\<close> of the absent base, with the call it makes
  to the recipient. \<open>_safeMint\<close> mints and then, when the recipient is a contract,
  calls the recipient's \<open>onERC721Received\<close>. That is a call to code outside this
  contract, made while \<open>createCrate\<close> is running, and the code may call back into
  this contract before it returns. The call is represented by what it does to the
  storage of this contract: a function from the storage at the moment of the call to
  \<open>None\<close>, when the recipient reverts or does not answer with the expected selector,
  or to the storage the recipient leaves behind. A recipient without code, and one
  that only answers, leave the storage as it is.
\<close>

type_synonym receiver = "storage \<Rightarrow> storage option"

definition safeMint :: "storage \<Rightarrow> address \<Rightarrow> uint256 \<Rightarrow> receiver \<Rightarrow> revert + storage" where
  "safeMint s to tokenId onERC721Received =
     (case mint s to tokenId of
        Inl e \<Rightarrow> Inl e
      | Inr s1 \<Rightarrow>
          (case onERC721Received s1 of
             None \<Rightarrow> Inl ERC721TransferToNonReceiver
           | Some s2 \<Rightarrow> Inr s2))"

text \<open>Modelled from the spec: \<open>_setTokenURI\<close> of the absent base, which reverts for a
  token that does not exist.\<close>

definition setTokenURI :: "storage \<Rightarrow> uint256 \<Rightarrow> string \<Rightarrow> revert + storage" where
  "setTokenURI s tokenId uri =
     (if ownerOf_internal s tokenId = 0 then Inl ERC721URISetOfNonexistentToken
      else Inr (s\<lparr>tokenURIs := (tokenURIs s)(tokenId := uri)\<rparr>))"

subsection \<open>The contract's own functions\<close>

text \<open>
  \<open>createCrate\<close> reads the token id from the counter, mints (which runs the
  recipient's hook), sets the token URI, and only then writes the crate, emits its
  event and increments the counter.
\<close>

definition createCrate ::
  "storage \<Rightarrow> uint256 \<Rightarrow> address \<Rightarrow> string \<Rightarrow> uint256 \<Rightarrow> string \<Rightarrow> string list \<Rightarrow> receiver
     \<Rightarrow> revert + (storage \<times> uint256)" where
  "createCrate s timestamp recipient cid relTime uri urls onERC721Received =
     (if \<not> recipient \<noteq> 0 then Inl InvalidRecipientAddress
      else if \<not> relTime > timestamp then Inl ReleaseTimeMustBeInTheFuture
      else if \<not> length cid > 0 then Inl IpfsCidCannotBeEmpty
      else if \<not> length urls > 0 then Inl MustProvideAtLeastOneKeeperUrl
      else
        let tokenId = tokenIdCounter s in
        case safeMint s recipient tokenId onERC721Received of
          Inl e \<Rightarrow> Inl e
        | Inr s1 \<Rightarrow>
            (case setTokenURI s1 tokenId uri of
               Inl e \<Rightarrow> Inl e
             | Inr s2 \<Rightarrow>
                 let s3 = s2\<lparr>crateInfo := (crateInfo s2)(tokenId :=
                             \<lparr>ipfsCid = cid, releaseTime = relTime, keeperUrls = urls,
                              released = False, createdAt = timestamp\<rparr>)\<rparr>;
                     s4 = s3\<lparr>events := events s3 @ [CrateCreated tokenId recipient cid relTime urls]\<rparr>;
                     s5 = s4\<lparr>tokenIdCounter := tokenIdCounter s4 + 1\<rparr>
                 in Inr (s5, tokenId)))"

definition isReleaseReady :: "storage \<Rightarrow> uint256 \<Rightarrow> uint256 \<Rightarrow> revert + bool" where
  "isReleaseReady s timestamp tokenId =
     (if \<not> ownerOf_internal s tokenId \<noteq> 0 then Inl TokenDoesNotExist
      else Inr (timestamp \<ge> releaseTime (crateInfo s tokenId)))"

definition markAsReleased :: "storage \<Rightarrow> uint256 \<Rightarrow> address \<Rightarrow> uint256 \<Rightarrow> revert + storage" where
  "markAsReleased s timestamp sender tokenId =
     (if \<not> ownerOf_internal s tokenId \<noteq> 0 then Inl TokenDoesNotExist
      else case ownerOf s tokenId of
        Inl e \<Rightarrow> Inl e
      | Inr owner \<Rightarrow>
          if \<not> owner = sender then Inl OnlyTokenOwnerCanMarkAsReleased
          else case isReleaseReady s timestamp tokenId of
            Inl e \<Rightarrow> Inl e
          | Inr ready \<Rightarrow>
              if \<not> ready then Inl ReleaseTimeHasNotPassed
              else if \<not> \<not> released (crateInfo s tokenId) then Inl AlreadyMarkedAsReleased
              else
                (let s1 = s\<lparr>crateInfo := (crateInfo s)(tokenId :=
                             (crateInfo s tokenId)\<lparr>released := True\<rparr>)\<rparr>
                 in Inr (s1\<lparr>events := events s1 @ [CrateReleased tokenId sender timestamp]\<rparr>)))"

section \<open>The orchestrator: backend/server.js\<close>

text \<open>
  A \<open>Buffer\<close> is a list of bytes. A JavaScript string is the list of its code
  units, here the code units below 256 (every string the server builds or compares
  is ASCII). Values that cross the HTTP boundary are JSON values; a number is a
  natural number here (the handlers only test a number they receive for being zero,
  or hand it to the runtime's conversion to a string). Pictographs in the server's
  console messages are left out of the transcribed messages.
\<close>

type_synonym bytes = "8 word list"

datatype json =
  JNull
| JBool bool
| JNumber nat
| JString string
| JArray "json list"
| JObject "(string \<times> json) list"

definition KEEPER_NODES :: "string list" where
  "KEEPER_NODES =
     [''http://localhost:4001'', ''http://localhost:4002'', ''http://localhost:4003'',
      ''http://localhost:4004'', ''http://localhost:4005'']"

subsection \<open>Hexadecimal strings and the random source\<close>

definition hexDigit :: "nat \<Rightarrow> char" where
  "hexDigit n = ''0123456789abcdef'' ! n"

text \<open>\<open>buf.toString('hex')\<close>: two lower-case digits for every byte.\<close>

definition toHex :: "bytes \<Rightarrow> string" where
  "toHex bs = concat (map (\<lambda>b. [hexDigit (unat b div 16), hexDigit (unat b mod 16)]) bs)"

definition hexValue :: "char \<Rightarrow> nat option" where
  "hexValue c =
     (let n = (of_char c :: nat) in
      if 48 \<le> n \<and> n \<le> 57 then Some (n - 48)
      else if 97 \<le> n \<and> n \<le> 102 then Some (n - 87)
      else if 65 \<le> n \<and> n \<le> 70 then Some (n - 55)
      else None)"

text \<open>
  \<open>Buffer.from(str, 'hex')\<close>: pairs of digits are decoded until the first pair that
  is not hexadecimal; a trailing single character is dropped.
\<close>

fun bufferFromHex :: "string \<Rightarrow> bytes" where
  "bufferFromHex (a # b # rest) =
     (case (hexValue a, hexValue b) of
        (Some x, Some y) \<Rightarrow> of_nat (16 * x + y) # bufferFromHex rest
      | _ \<Rightarrow> [])"
| "bufferFromHex _ = []"

text \<open>
  The operating system's random generator is a stream of bytes;
  \<open>crypto.randomBytes(n)\<close> takes the next \<open>n\<close> of them.
\<close>

type_synonym rng = "nat \<Rightarrow> 8 word"

definition randomBytes :: "rng \<Rightarrow> nat \<Rightarrow> bytes \<times> rng" where
  "randomBytes g n = (map g [0..<n], (\<lambda>i. g (i + n)))"

definition generateEncryptionKey :: "rng \<Rightarrow> string \<times> rng" where
  "generateEncryptionKey g = (let (bs, g') = randomBytes g 32 in (toHex bs, g'))"

subsection \<open>The cipher behind \<open>createCipheriv\<close> and \<open>createDecipheriv\<close>\<close>

text \<open>
  The cipher is Node's \<open>crypto\<close> module, which is not part of the repository. The
  server names the algorithm \<open>aes-256-cbc\<close>; the spec's Cipher takes a key of exactly
  32 bytes and a nonce of exactly 16 bytes and fails on a wrong key length, a short
  blob or a failed block-cipher padding check. The definitions of this subsection
  are cipher block chaining over 16-byte blocks with the padding the algorithm name
  stands for. The block permutation of AES-256 under a key and its inverse are
  parameters.
\<close>

text \<open>Modelled from the spec: the failures of the absent cipher (the spec's \<open>CryptoError\<close>).\<close>

datatype crypto_error = InvalidKeyLength | InvalidIvLength | WrongFinalBlockLength | BadDecrypt

text \<open>Modelled from the spec: the XOR of two blocks, byte by byte, which chaining uses.\<close>

definition xorBytes :: "bytes \<Rightarrow> bytes \<Rightarrow> bytes" where
  "xorBytes a b = map2 (XOR) a b"

text \<open>
  Modelled from the spec: chained encryption of the absent cipher. Each 16-byte
  block is XORed with the previous ciphertext block (the nonce for the first) and
  then passed through the block permutation \<open>f\<close>.
\<close>

fun cbcEncrypt :: "(bytes \<Rightarrow> bytes) \<Rightarrow> bytes \<Rightarrow> bytes \<Rightarrow> bytes" where
  "cbcEncrypt f prev dat =
     (if dat = [] then []
      else let c = f (xorBytes (take 16 dat) prev) in c @ cbcEncrypt f c (drop 16 dat))"

text \<open>
  Modelled from the spec: chained decryption of the absent cipher. Each ciphertext
  block is passed through the inverse permutation \<open>f\<close> and XORed with the previous
  ciphertext block.
\<close>

fun cbcDecrypt :: "(bytes \<Rightarrow> bytes) \<Rightarrow> bytes \<Rightarrow> bytes \<Rightarrow> bytes" where
  "cbcDecrypt f prev dat =
     (if dat = [] then []
      else let c = take 16 dat in xorBytes (f c) prev @ cbcDecrypt f c (drop 16 dat))"

declare cbcEncrypt.simps [simp del] cbcDecrypt.simps [simp del]

text \<open>
  Modelled from the spec: the block padding of the absent cipher. The plaintext
  is filled up to the next multiple of 16 bytes with 1 to 16 bytes, each holding the
  number of bytes added.
\<close>

definition pkcs7Pad :: "bytes \<Rightarrow> bytes" where
  "pkcs7Pad dat = (let n = 16 - length dat mod 16 in dat @ replicate n (of_nat n))"

text \<open>
  Modelled from the spec: the padding check of the absent cipher, which the spec
  names as a cause of \<open>CryptoError\<close>. The last byte gives the number of padding
  bytes; the check fails unless it is between 1 and 16 and all of them hold it.
\<close>

definition pkcs7Unpad :: "bytes \<Rightarrow> crypto_error + bytes" where
  "pkcs7Unpad dat =
     (if dat = [] then Inl BadDecrypt
      else
        let n = unat (last dat) in
        if n = 0 \<or> n > 16 \<or> (\<exists>b \<in> set (drop (length dat - n) dat). b \<noteq> of_nat n)
        then Inl BadDecrypt
        else Inr (take (length dat - n) dat))"

text \<open>
  Modelled from the spec: \<open>createCipheriv(algorithm, key, iv)\<close> followed by
  \<open>update(data)\<close> and \<open>final()\<close>, of Node's \<open>crypto\<close> module. The key must have
  exactly 32 bytes and the nonce exactly 16.
\<close>

definition aes256cbcEncrypt ::
  "(bytes \<Rightarrow> bytes \<Rightarrow> bytes) \<Rightarrow> bytes \<Rightarrow> bytes \<Rightarrow> bytes \<Rightarrow> crypto_error + bytes" where
  "aes256cbcEncrypt E keyBuffer iv dat =
     (if length keyBuffer \<noteq> 32 then Inl InvalidKeyLength
      else if length iv \<noteq> 16 then Inl InvalidIvLength
      else Inr (cbcEncrypt (E keyBuffer) iv (pkcs7Pad dat)))"

text \<open>
  Modelled from the spec: \<open>createDecipheriv(algorithm, key, iv)\<close> followed by
  \<open>update(data)\<close> and \<open>final()\<close>, of Node's \<open>crypto\<close> module. It fails on a wrong
  key or nonce length, on a ciphertext that is empty or not a whole number of blocks,
  and on a failed padding check.
\<close>

definition aes256cbcDecrypt ::
  "(bytes \<Rightarrow> bytes \<Rightarrow> bytes) \<Rightarrow> bytes \<Rightarrow> bytes \<Rightarrow> bytes \<Rightarrow> crypto_error + bytes" where
  "aes256cbcDecrypt D keyBuffer iv dat =
     (if length keyBuffer \<noteq> 32 then Inl InvalidKeyLength
      else if length iv \<noteq> 16 then Inl InvalidIvLength
      else if dat = [] \<or> length dat mod 16 \<noteq> 0 then Inl WrongFinalBlockLength
      else pkcs7Unpad (cbcDecrypt (D keyBuffer) iv dat))"

text \<open>Modelled from the spec: the \<open>message\<close> of an error the absent cipher throws.\<close>

definition cryptoMessage :: "crypto_error \<Rightarrow> string" where
  "cryptoMessage e =
     (case e of
        InvalidKeyLength \<Rightarrow> ''Invalid key length''
      | InvalidIvLength \<Rightarrow> ''Invalid initialization vector''
      | WrongFinalBlockLength \<Rightarrow> ''wrong final block length''
      | BadDecrypt \<Rightarrow> ''bad decrypt'')"

subsection \<open>Encryption helper functions\<close>

definition encryptData ::
  "(bytes \<Rightarrow> bytes \<Rightarrow> bytes) \<Rightarrow> bytes \<Rightarrow> string \<Rightarrow> rng \<Rightarrow> crypto_error + (bytes \<times> rng)" where
  "encryptData E buffer key g =
     (let keyBuffer = bufferFromHex key;
          (iv, g') = randomBytes g 16
      in case aes256cbcEncrypt E keyBuffer iv buffer of
           Inl e \<Rightarrow> Inl e
         | Inr encrypted \<Rightarrow> Inr (iv @ encrypted, g'))"

definition decryptData ::
  "(bytes \<Rightarrow> bytes \<Rightarrow> bytes) \<Rightarrow> bytes \<Rightarrow> string \<Rightarrow> crypto_error + bytes" where
  "decryptData D encryptedBuffer keyHex =
     (let keyBuffer = bufferFromHex keyHex;
          iv = take 16 encryptedBuffer;
          encryptedData = drop 16 encryptedBuffer
      in aes256cbcDecrypt D keyBuffer iv encryptedData)"

subsection \<open>Requests, responses and the outside world\<close>

text \<open>
  The libraries and services the server calls are parameters: the AES-256 block
  permutation and its inverse (keyed), the pinning service, the secret-sharing
  library, the HTTP client, and the runtime's conversion of a value that is not a
  string to a string. A call that throws or rejects returns \<open>Inl\<close> with the
  error's message. A handler returns what it logged (one entry per
  \<open>console.log\<close> or \<open>console.error\<close> call: the list of its arguments), the external
  calls it made, in order, and its HTTP response.
\<close>

record env =
  aesEncryptBlock :: "bytes \<Rightarrow> bytes \<Rightarrow> bytes"
  aesDecryptBlock :: "bytes \<Rightarrow> bytes \<Rightarrow> bytes"
  pinFileToIPFS :: "bytes \<Rightarrow> json \<Rightarrow> string + string"
  secretsShare :: "string \<Rightarrow> nat \<Rightarrow> nat \<Rightarrow> string + string list"
  secretsCombine :: "string list \<Rightarrow> string + string"
  axiosPost :: "string \<Rightarrow> json \<Rightarrow> string + json"
  axiosGet :: "string \<Rightarrow> string + bytes"
  valueToString :: "json \<Rightarrow> string + string"

datatype payload = JsonBody json | FileBody "(string \<times> string) list" bytes

record response =
  status :: nat
  body :: payload

datatype extcall =
  PinFileToIPFS bytes json
| SecretsShare string nat nat
| AxiosPost string json
| SecretsCombine "string list"
| AxiosGet string
| Decipher bytes string

record outcome =
  logged :: "json list list"
  calls :: "extcall list"
  reply :: response

record uploadedFile =
  buffer :: bytes
  originalname :: string
  mimetype :: string
  fileSize :: nat

fun decimal :: "nat \<Rightarrow> string" where
  "decimal n = (if n < 10 then [hexDigit n] else decimal (n div 10) @ [hexDigit (n mod 10)])"

declare decimal.simps [simp del]

definition nl :: char where
  "nl = CHR 0x0A"

text \<open>\<open>xs[i]\<close> on an array of strings; out of range it is \<open>undefined\<close>, written \<open>JNull\<close>.\<close>

definition at :: "string list \<Rightarrow> nat \<Rightarrow> json" where
  "at xs i = (if i < length xs then JString (xs ! i) else JNull)"

definition jsonError :: "nat \<Rightarrow> string \<Rightarrow> response" where
  "jsonError code message = \<lparr>status = code, body = JsonBody (JObject [(''error'', JString message)])\<rparr>"

definition jsonErrorDetails :: "nat \<Rightarrow> string \<Rightarrow> string \<Rightarrow> response" where
  "jsonErrorDetails code message details =
     \<lparr>status = code,
      body = JsonBody (JObject [(''error'', JString message), (''details'', JString details)])\<rparr>"

subsection \<open>The upload endpoint\<close>

definition uploadFailed :: "json list list \<Rightarrow> extcall list \<Rightarrow> string \<Rightarrow> outcome" where
  "uploadFailed lg cs message =
     \<lparr>logged = lg @ [[JString ''An error occurred:'', JString message]],
      calls = cs,
      reply = jsonErrorDetails 500
        ''An error occurred during the upload/encryption/split process.'' message\<rparr>"

definition pinOptions :: "uploadedFile \<Rightarrow> string \<Rightarrow> json" where
  "pinOptions file isoDate =
     JObject [(''pinataMetadata'', JObject
       [(''name'', JString (''encrypted_'' @ originalname file)),
        (''keyvalues'', JObject
          [(''originalFilename'', JString (originalname file)),
           (''mimeType'', JString (mimetype file)),
           (''fileSize'', JString (decimal (fileSize file))),
           (''encryptedAt'', JString isoDate)])])]"

definition shareLog :: "string list \<Rightarrow> json list list" where
  "shareLog shares =
     [[JString (nl # ''========================================'')],
      [JString '' KEY SPLIT INTO 5 SHARES (threshold: 3)''],
      [JString ''========================================''],
      [JString (nl # '' COPY THESE SHARES FOR MANUAL UNLOCK:'' @ [nl])],
      [JString ''Share 1 (FULL):'', at shares 0],
      [JString (nl # ''Share 2 (FULL):''), at shares 1],
      [JString (nl # ''Share 3 (FULL):''), at shares 2],
      [JString (nl # ''Share 4 (FULL):''), at shares 3],
      [JString (nl # ''Share 5 (FULL):''), at shares 4],
      [JString (nl # ''========================================'' @ [nl])]]"

definition storeShareUrl :: "nat \<Rightarrow> string" where
  "storeShareUrl i = KEEPER_NODES ! i @ ''/store-share''"

definition storeShareBody :: "string \<Rightarrow> string list \<Rightarrow> nat \<Rightarrow> json" where
  "storeShareBody cid shares i =
     JObject [(''id'', JString cid), (''share'', JString (shares ! i))]"

text \<open>
  The distribution loop: one POST per keeper, for
  \<open>i < Math.min(shares.length, KEEPER_NODES.length)\<close>. A rejected POST is logged
  and becomes \<open>null\<close> (here \<open>None\<close>) in the results.
\<close>

definition distributionCount :: "string list \<Rightarrow> nat" where
  "distributionCount shares = min (length shares) (length KEEPER_NODES)"

definition distributionResults :: "env \<Rightarrow> string \<Rightarrow> string list \<Rightarrow> json option list" where
  "distributionResults env cid shares =
     map (\<lambda>i. case axiosPost env (storeShareUrl i) (storeShareBody cid shares i) of
                 Inl message \<Rightarrow> None
               | Inr r \<Rightarrow> Some r)
       [0..<distributionCount shares]"

definition distributionCalls :: "string \<Rightarrow> string list \<Rightarrow> extcall list" where
  "distributionCalls cid shares =
     map (\<lambda>i. AxiosPost (storeShareUrl i) (storeShareBody cid shares i))
       [0..<distributionCount shares]"

definition distributionLog :: "env \<Rightarrow> string \<Rightarrow> string list \<Rightarrow> json list list" where
  "distributionLog env cid shares =
     map (\<lambda>i. [JString (''Distributing share '' @ decimal (i + 1) @ '' to keeper at ''
                          @ KEEPER_NODES ! i @ ''...'')])
       [0..<distributionCount shares]
     @ concat (map (\<lambda>i. case axiosPost env (storeShareUrl i) (storeShareBody cid shares i) of
                           Inl message \<Rightarrow>
                             [[JString (''Failed to send share to keeper '' @ decimal (i + 1) @ '':''),
                               JString message]]
                         | Inr r \<Rightarrow> [])
         [0..<distributionCount shares])"

definition activeKeeperUrls :: "json option list \<Rightarrow> string list" where
  "activeKeeperUrls results =
     map (\<lambda>i. KEEPER_NODES ! i) (filter (\<lambda>i. results ! i \<noteq> None) [0..<length results])"

definition afterSplit ::
  "env \<Rightarrow> json list list \<Rightarrow> extcall list \<Rightarrow> string \<Rightarrow> string list \<Rightarrow> outcome" where
  "afterSplit env lg cs cid shares =
     (let results = distributionResults env cid shares;
          successfulDistributions = length (filter (\<lambda>r. r \<noteq> None) results);
          lg1 = lg @ shareLog shares @ distributionLog env cid shares
                @ [[JString (''Successfully distributed '' @ decimal successfulDistributions
                             @ ''/'' @ decimal (length shares) @ '' shares to keepers'')]];
          cs1 = cs @ distributionCalls cid shares
      in if successfulDistributions < 3 then
           \<lparr>logged = lg1
              @ [[JString (''  WARNING: Only '' @ decimal successfulDistributions
                           @ ''/5 keepers are online!'')],
                 [JString ''   Need at least 3 keeper nodes running.'']],
            calls = cs1,
            reply = \<lparr>status = 500, body = JsonBody (JObject
              [(''error'', JString
                  ''Failed to distribute enough shares to keeper nodes. Need at least 3 keepers online.''),
               (''successfulDistributions'', JNumber successfulDistributions),
               (''required'', JNumber 3),
               (''totalKeepers'', JNumber (length KEEPER_NODES))])\<rparr>\<rparr>
         else
           \<lparr>logged = lg1
              @ [[JString ('' Successfully distributed to '' @ decimal successfulDistributions
                           @ '' keepers'')],
                 [JString ''   Active keepers:'', JArray (map JString (activeKeeperUrls results))]],
            calls = cs1,
            reply = \<lparr>status = 200, body = JsonBody (JObject
              [(''ipfsCid'', JString cid),
               (''sharesDistributed'', JNumber successfulDistributions),
               (''keeperUrls'', JArray (map JString (activeKeeperUrls results))),
               (''manualShares'', JArray [at shares 1, at shares 2])])\<rparr>\<rparr>)"

text \<open>
  The handler up to and including the split of the key: it either ends in the
  handler's \<open>catch\<close> block, or reaches the distribution loop with what it has
  logged and called so far, the content id and the shares.
\<close>

definition beforeSplit ::
  "env \<Rightarrow> rng \<Rightarrow> string \<Rightarrow> uploadedFile
     \<Rightarrow> outcome + (json list list \<times> extcall list \<times> string \<times> string list)" where
  "beforeSplit env g isoDate file =
     (let (encryptionKey, g1) = generateEncryptionKey g;
          lg1 = [[JString ''Generated encryption key (first 16 chars):'',
                  JString (take 16 encryptionKey @ ''...'')]]
      in case encryptData (aesEncryptBlock env) (buffer file) encryptionKey g1 of
           Inl e \<Rightarrow> Inl (uploadFailed lg1 [] (cryptoMessage e))
         | Inr (encryptedBuffer, g2) \<Rightarrow>
             let lg2 = lg1 @ [[JString ''File encrypted successfully'']];
                 cs2 = [PinFileToIPFS encryptedBuffer (pinOptions file isoDate)]
             in case pinFileToIPFS env encryptedBuffer (pinOptions file isoDate) of
                  Inl message \<Rightarrow> Inl (uploadFailed lg2 cs2 message)
                | Inr cid \<Rightarrow>
                    let lg3 = lg2
                          @ [[JString ''Successfully pinned encrypted file to IPFS. CID:'',
                              JString cid],
                             [JString ''Original filename:'', JString (originalname file)]];
                        keyInHex = encryptionKey;
                        cs3 = cs2 @ [SecretsShare keyInHex 5 3]
                    in case secretsShare env keyInHex 5 3 of
                         Inl message \<Rightarrow> Inl (uploadFailed lg3 cs3 message)
                       | Inr shares \<Rightarrow> Inr (lg3, cs3, cid, shares))"

definition upload :: "env \<Rightarrow> rng \<Rightarrow> string \<Rightarrow> uploadedFile option \<Rightarrow> outcome" where
  "upload env g isoDate reqFile =
     (case reqFile of
        None \<Rightarrow> \<lparr>logged = [], calls = [], reply = jsonError 400 ''Missing file''\<rparr>
      | Some file \<Rightarrow>
          (case beforeSplit env g isoDate file of
             Inl failed \<Rightarrow> failed
           | Inr (lg, cs, cid, shares) \<Rightarrow> afterSplit env lg cs cid shares))"

text \<open>Reading a field of a JSON response, and whether the POST to keeper \<open>i\<close> succeeded.\<close>

fun jsonField :: "json \<Rightarrow> string \<Rightarrow> json option" where
  "jsonField (JObject kvs) k = map_of kvs k"
| "jsonField _ k = None"

definition replyField :: "outcome \<Rightarrow> string \<Rightarrow> json option" where
  "replyField out k = (case body (reply out) of JsonBody j \<Rightarrow> jsonField j k | FileBody h d \<Rightarrow> None)"

definition delivered :: "env \<Rightarrow> string \<Rightarrow> string list \<Rightarrow> nat \<Rightarrow> bool" where
  "delivered env cid shares i \<longleftrightarrow>
     \<not> isl (axiosPost env (storeShareUrl i) (storeShareBody cid shares i))"

subsection \<open>The reconstruct endpoint\<close>

text \<open>
  The request body is parsed JSON, so the two properties the handler reads from it,
  \<open>shares\<close> and \<open>ipfsCid\<close>, are JSON values of any kind, or \<open>undefined\<close> (here
  \<open>None\<close>) when the body has no such property. A condition of JavaScript tests a
  value for being truthy: \<open>undefined\<close>, \<open>null\<close>, \<open>false\<close>, zero and the empty string
  are not, every array and every object is.
\<close>

fun truthy :: "json \<Rightarrow> bool" where
  "truthy JNull = False"
| "truthy (JBool b) = b"
| "truthy (JNumber n) = (n \<noteq> 0)"
| "truthy (JString s) = (s \<noteq> [])"
| "truthy (JArray xs) = True"
| "truthy (JObject kvs) = True"

text \<open>
  A template literal inserts a string as it is, and any other value through the
  runtime's conversion to a string, which throws for an object that has no
  primitive value.
\<close>

definition templateString :: "env \<Rightarrow> json \<Rightarrow> string + string" where
  "templateString env v = (case v of JString s \<Rightarrow> Inr s | _ \<Rightarrow> valueToString env v)"

text \<open>
  \<open>String.prototype.trim\<close> strips white space and line terminators from both ends;
  among the code units below 256 these are tab, line feed, vertical tab, form feed,
  carriage return, space and no-break space.
\<close>

definition isWhiteSpace :: "char \<Rightarrow> bool" where
  "isWhiteSpace c \<longleftrightarrow> (of_char c :: nat) \<in> {9, 10, 11, 12, 13, 32, 160}"

definition trim :: "string \<Rightarrow> string" where
  "trim s = rev (dropWhile isWhiteSpace (rev (dropWhile isWhiteSpace s)))"

text \<open>
  The template literal of \<open>fetchFromIPFS\<close> is inside its \<open>try\<close> block, so a
  conversion that throws there is caught like a failed request.
\<close>

definition fetchFromIPFS :: "env \<Rightarrow> json \<Rightarrow> (json list list \<times> string) + bytes" where
  "fetchFromIPFS env cidValue =
     (case templateString env cidValue of
        Inl message \<Rightarrow>
          Inl ([[JString ''Error fetching from IPFS:'', JString message]],
               ''Failed to fetch file from IPFS'')
      | Inr cid \<Rightarrow>
          (case axiosGet env (''https://gateway.pinata.cloud/ipfs/'' @ cid) of
             Inl message \<Rightarrow>
               Inl ([[JString ''Error fetching from IPFS:'', JString message]],
                    ''Failed to fetch file from IPFS'')
           | Inr dat \<Rightarrow> Inr dat))"

text \<open>
  \<open>shares.filter(s => s && s.trim().length > 0)\<close>, entry by entry. An entry that is
  not truthy is dropped. A string is kept when trimming leaves something of it. On
  any other entry (a number other than zero, \<open>true\<close>, an array, an object) \<open>s.trim\<close>
  is not a function: the callback throws a \<open>TypeError\<close>, and the filter with it. The
  entries kept are strings.
\<close>

fun validShares :: "json list \<Rightarrow> string + string list" where
  "validShares [] = Inr []"
| "validShares (s # rest) =
     (if \<not> truthy s then validShares rest
      else case s of
        JString str \<Rightarrow>
          (case validShares rest of
             Inl message \<Rightarrow> Inl message
           | Inr vs \<Rightarrow> Inr (if length (trim str) > 0 then str # vs else vs))
      | _ \<Rightarrow> Inl ''s.trim is not a function'')"

definition sharePrefixLog :: "string list \<Rightarrow> json list list" where
  "sharePrefixLog vs =
     [[JString ''Share 1 (first 32 chars):'', JString (take 32 (vs ! 0) @ ''...'')],
      [JString ''Share 2 (first 32 chars):'', JString (take 32 (vs ! 1) @ ''...'')],
      [JString ''Share 3 (first 32 chars):'', JString (take 32 (vs ! 2) @ ''...'')]]"

text \<open>The \<open>catch\<close> block of the handler's outer \<open>try\<close>.\<close>

definition reconstructFailed :: "json list list \<Rightarrow> extcall list \<Rightarrow> string \<Rightarrow> outcome" where
  "reconstructFailed lg cs message =
     \<lparr>logged = lg @ [[JString '' Reconstruction process failed:'', JString message]],
      calls = cs,
      reply = jsonErrorDetails 500 ''An error occurred during reconstruction'' message\<rparr>"

text \<open>
  The handler. Its first test, \<open>!shares || !Array.isArray(shares) || shares.length < 3\<close>,
  lets through an array of at least three entries and nothing else (an array is
  truthy); its second, \<open>!cidValue\<close>, a truthy content id. Everything after the two
  tests is inside the outer \<open>try\<close>.
\<close>

definition reconstruct :: "env \<Rightarrow> json option \<Rightarrow> json option \<Rightarrow> outcome" where
  "reconstruct env reqShares reqCid =
     (case reqShares of
        Some (JArray shares) \<Rightarrow>
          if length shares < 3
          then \<lparr>logged = [], calls = [], reply = jsonError 400 ''At least 3 shares are required''\<rparr>
          else
            (case reqCid of
               None \<Rightarrow>
                 \<lparr>logged = [], calls = [], reply = jsonError 400 ''IPFS CID is required''\<rparr>
             | Some cidValue \<Rightarrow>
                 if \<not> truthy cidValue
                 then \<lparr>logged = [], calls = [], reply = jsonError 400 ''IPFS CID is required''\<rparr>
                 else
                   (case templateString env cidValue of
                      Inl message \<Rightarrow> reconstructFailed [] [] message
                    | Inr cid \<Rightarrow>
                        let lg1 = [[JString (nl # '' Reconstructing key for CID: '' @ cid)],
                                   [JString (''Received '' @ decimal (length shares) @ '' shares'')]]
                        in case validShares shares of
                             Inl message \<Rightarrow> reconstructFailed lg1 [] message
                           | Inr vs \<Rightarrow>
                               if length vs < 3
                               then \<lparr>logged = lg1, calls = [],
                                     reply = jsonError 400 ''At least 3 valid shares are required''\<rparr>
                               else
                                 let lg2 = lg1 @ sharePrefixLog vs;
                                     cs2 = [SecretsCombine (take 3 vs)]
                                 in case secretsCombine env (take 3 vs) of
                                      Inl message \<Rightarrow>
                                        \<lparr>logged = lg2
                                           @ [[JString '' Failed to reconstruct key:'', JString message]],
                                         calls = cs2,
                                         reply = jsonErrorDetails 400
                                           ''Failed to reconstruct key. Shares may be invalid or incompatible.''
                                           message\<rparr>
                                    | Inr reconstructedKey \<Rightarrow>
                                        let lg3 = lg2
                                              @ [[JString '' Key reconstructed successfully''],
                                                 [JString ''Reconstructed key (first 16 chars):'',
                                                  JString (take 16 reconstructedKey @ ''...'')],
                                                 [JString '' Fetching encrypted file from IPFS...'']];
                                            cs3 = cs2 @ [AxiosGet (''https://gateway.pinata.cloud/ipfs/'' @ cid)]
                                        in case fetchFromIPFS env cidValue of
                                             Inl (lgf, message) \<Rightarrow>
                                               \<lparr>logged = lg3 @ lgf
                                                  @ [[JString '' Failed to fetch from IPFS:'', JString message]],
                                                calls = cs3,
                                                reply = jsonErrorDetails 500
                                                  ''Failed to fetch file from IPFS'' message\<rparr>
                                           | Inr encryptedData \<Rightarrow>
                                               let lg4 = lg3
                                                     @ [[JString ('' Fetched encrypted file (''
                                                           @ decimal (length encryptedData) @ '' bytes)'')],
                                                        [JString '' Decrypting file...'']];
                                                   cs4 = cs3 @ [Decipher encryptedData reconstructedKey]
                                               in case decryptData (aesDecryptBlock env) encryptedData
                                                         reconstructedKey of
                                                    Inl e \<Rightarrow>
                                                      \<lparr>logged = lg4
                                                         @ [[JString '' Decryption failed:'',
                                                             JString (cryptoMessage e)]],
                                                       calls = cs4,
                                                       reply = jsonErrorDetails 500
                                                         ''Decryption failed. The key may be incorrect.''
                                                         (cryptoMessage e)\<rparr>
                                                  | Inr decryptedData \<Rightarrow>
                                                      \<lparr>logged = lg4
                                                         @ [[JString ('' File decrypted successfully (''
                                                               @ decimal (length decryptedData) @ '' bytes)'')],
                                                            [JString ('' Decrypted file sent to client'' @ [nl])]],
                                                       calls = cs4,
                                                       reply = \<lparr>status = 200, body = FileBody
                                                         [(''Content-Type'', ''application/octet-stream''),
                                                          (''Content-Disposition'',
                                                           ''attachment; filename='' @ [CHR 0x22]
                                                             @ ''decrypted_file'' @ [CHR 0x22])]
                                                         decryptedData\<rparr>\<rparr>))
      | _ \<Rightarrow> \<lparr>logged = [], calls = [], reply = jsonError 400 ''At least 3 shares are required''\<rparr>)"

subsection \<open>Observations on a run of a handler\<close>

text \<open>
  The number of keepers whose POST succeeded, and the encrypted blob the upload
  handler pins. Of a reconstruct request: the entries of its \<open>shares\<close> array (none
  when the property is missing or is not an array); whether it supplies a content
  id (a truthy value); whether an entry is something other than a string or a value
  that is not truthy; and the non-empty shares among the entries, which are the
  strings with a character that is not white space, in the order of the request.
\<close>

definition successes :: "env \<Rightarrow> string \<Rightarrow> string list \<Rightarrow> nat" where
  "successes env cid shares = length (filter (delivered env cid shares) [0..<5])"

definition encryptedUpload :: "env \<Rightarrow> rng \<Rightarrow> uploadedFile \<Rightarrow> bytes" where
  "encryptedUpload env g file =
     map g [32..<48] @ cbcEncrypt (aesEncryptBlock env (map g [0..<32])) (map g [32..<48])
       (pkcs7Pad (buffer file))"



definition notAShare :: "json \<Rightarrow> bool" where
  "notAShare e \<longleftrightarrow> (case e of JString s \<Rightarrow> False | _ \<Rightarrow> truthy e)"

definition nonEmptyShares :: "json list \<Rightarrow> string list" where
  "nonEmptyShares entries =
     concat (map (\<lambda>e. case e of
                        JString s \<Rightarrow> if (\<exists>c \<in> set s. \<not> isWhiteSpace c) then [s] else []
                      | _ \<Rightarrow> []) entries)"

section \<open>The threshold splitter\<close>

text \<open>
  The secret-sharing library the server calls (\<open>secrets.share\<close>, \<open>secrets.combine\<close>)
  is a dependency that is not part of the repository. This section models the
  splitter from the spec: Shamir's scheme over the field with 256 elements, one
  polynomial per byte of the secret, evaluated at the points 1 to n, and Lagrange
  interpolation at 0.
\<close>

subsection \<open>The field with 256 elements\<close>

text \<open>
  The spec asks for explicit arithmetic over GF(256): addition is XOR, and
  multiplication is explicit. A field element is a byte, read as a polynomial over
  GF(2) of degree below 8.
\<close>

text \<open>
  Modelled from the spec: multiplication by the indeterminate in the field of the
  absent library, modulo x^8 + x^4 + x^3 + x^2 + 1 (the spec leaves the modulus
  open).
\<close>

definition xtime :: "8 word \<Rightarrow> 8 word" where
  "xtime a = (if bit a 7 then push_bit 1 a XOR 0x1D else push_bit 1 a)"

text \<open>
  Modelled from the spec: shift-and-add multiplication in the field of the absent
  library, over the lowest \<open>n\<close> bits of the second factor.
\<close>

fun gfMulAux :: "nat \<Rightarrow> 8 word \<Rightarrow> 8 word \<Rightarrow> 8 word" where
  "gfMulAux 0 a b = 0"
| "gfMulAux (Suc n) a b =
     (if bit b 0 then a else 0) XOR gfMulAux n (xtime a) (drop_bit 1 b)"

text \<open>Modelled from the spec: multiplication in the field of the absent library.\<close>

definition gfMul :: "8 word \<Rightarrow> 8 word \<Rightarrow> 8 word" where
  "gfMul a b = gfMulAux 8 a b"

text \<open>Modelled from the spec: powers in the field of the absent library.\<close>

primrec gfPow :: "8 word \<Rightarrow> nat \<Rightarrow> 8 word" where
  "gfPow a 0 = 1"
| "gfPow a (Suc n) = gfMul a (gfPow a n)"

text \<open>
  Modelled from the spec: the inverse in the field of the absent library, as the
  254th power (the 255th power of every element but zero is 1).
\<close>

definition gfInv :: "8 word \<Rightarrow> 8 word" where
  "gfInv a = gfPow a 254"

lemma xtime_xor: "xtime (a XOR b) = xtime a XOR xtime b"
  by (simp add: xtime_def bit_xor_iff ac_simps)

lemma xtime_0: "xtime 0 = 0"
  by (simp add: xtime_def)

lemma xtime_if: "xtime (if c then a else 0) = (if c then xtime a else 0)"
  by (simp add: xtime_0)

lemma gfMulAux_0_left: "gfMulAux n 0 b = 0"
  by (induction n arbitrary: b) (simp_all add: xtime_0)

lemma gfMulAux_0_right: "gfMulAux n a 0 = 0"
  by (induction n arbitrary: a) simp_all

lemma gfMulAux_xor_left:
  "gfMulAux n (a XOR a') b = gfMulAux n a b XOR gfMulAux n a' b"
  by (induction n arbitrary: a a' b) (simp_all add: xtime_xor ac_simps)

lemma gfMulAux_xor_right:
  "gfMulAux n a (b XOR b') = gfMulAux n a b XOR gfMulAux n a b'"
  by (induction n arbitrary: a b b') (simp_all add: bit_xor_iff ac_simps)

lemma gfMulAux_if_left:
  "gfMulAux n (if c then a else 0) b = (if c then gfMulAux n a b else 0)"
  by (simp add: gfMulAux_0_left)

lemma gfMulAux_xtime:
  "gfMulAux n (xtime a) b = xtime (gfMulAux n a b)"
  by (induction n arbitrary: a b) (simp_all add: xtime_xor xtime_0)

lemma gfMulAux_swap:
  "gfMulAux n (gfMulAux m a c) b = gfMulAux m (gfMulAux n a b) c"
proof (induction n arbitrary: a b)
  case 0
  show ?case by (simp add: gfMulAux_0_left)
next
  case (Suc n)
  have "gfMulAux (Suc n) (gfMulAux m a c) b =
      (if bit b 0 then gfMulAux m a c else 0) XOR gfMulAux n (gfMulAux m (xtime a) c) (drop_bit 1 b)"
    by (simp add: gfMulAux_xtime)
  also have "\<dots> = gfMulAux m (if bit b 0 then a else 0) c
      XOR gfMulAux m (gfMulAux n (xtime a) (drop_bit 1 b)) c"
    by (simp add: Suc.IH gfMulAux_0_left)
  also have "\<dots> = gfMulAux m (gfMulAux (Suc n) a b) c"
    by (simp add: gfMulAux_xor_left)
  finally show ?case .
qed

lemma xtime_pow: "k < 7 \<Longrightarrow> xtime (2 ^ k) = 2 ^ Suc k"
  by (simp add: xtime_def bit_exp_iff push_bit_eq_mult)

lemma bit_step:
  fixes b :: "8 word"
  assumes "m < 8"
  shows "bit ((if bit b 0 then 2 ^ k else 0) XOR push_bit (Suc k) (take_bit n (drop_bit 1 b))) m
       = bit (push_bit k (take_bit (Suc n) b)) m"
proof -
  have l: "bit ((if bit b 0 then 2 ^ k else 0) XOR push_bit (Suc k) (take_bit n (drop_bit 1 b))) m
      \<longleftrightarrow> ((bit b 0 \<and> m = k) \<noteq> (Suc k \<le> m \<and> m - Suc k < n \<and> bit b (1 + (m - Suc k))))"
    using assms
    by (simp only: bit_xor_iff bit_push_bit_iff bit_take_bit_iff bit_drop_bit_eq bit_exp_iff
        if_distrib[of "\<lambda>w. bit w m"] possible_bit_word comp_def)
       auto
  have r: "bit (push_bit k (take_bit (Suc n) b)) m
      \<longleftrightarrow> (k \<le> m \<and> m - k < Suc n \<and> bit b (m - k))"
    using assms
    by (simp only: bit_push_bit_iff bit_take_bit_iff possible_bit_word) auto
  consider "m < k" | "m = k" | "k < m" by linarith
  then show ?thesis
  proof cases
    case 1
    then show ?thesis unfolding l r by simp
  next
    case 2
    then show ?thesis unfolding l r by simp
  next
    case 3
    then have "1 + (m - Suc k) = m - k" "Suc k \<le> m" "m \<noteq> k" "k \<le> m" by simp_all
    moreover from 3 have "m - Suc k < n \<longleftrightarrow> m - k < Suc n" by auto
    ultimately show ?thesis unfolding l r by simp
  qed
qed

lemma step_eq:
  fixes b :: "8 word"
  shows "(if bit b 0 then 2 ^ k else 0) XOR push_bit (Suc k) (take_bit n (drop_bit 1 b))
       = push_bit k (take_bit (Suc n) b)"
  by (rule bit_word_eqI, rule bit_step, simp)

lemma gfMulAux_pow:
  "n + k \<le> 8 \<Longrightarrow> gfMulAux n (2 ^ k) b = push_bit k (take_bit n b)"
proof (induction n arbitrary: k b)
  case 0
  show ?case by simp
next
  case (Suc n)
  show ?case
  proof (cases n)
    case 0
    have "gfMulAux (Suc 0) (2 ^ k) b
        = (if bit b 0 then 2 ^ k else 0) XOR push_bit (Suc k) (take_bit 0 (drop_bit 1 b))"
      by simp
    also have "\<dots> = push_bit k (take_bit (Suc 0) b)"
      by (rule step_eq)
    finally show ?thesis unfolding 0 .
  next
    case (Suc m)
    with Suc.prems have k: "k < 7" by simp
    from Suc.prems have "n + Suc k \<le> 8" by simp
    from Suc.IH[OF this] xtime_pow[OF k]
    have "gfMulAux (Suc n) (2 ^ k) b =
        (if bit b 0 then 2 ^ k else 0) XOR push_bit (Suc k) (take_bit n (drop_bit 1 b))"
      by simp
    also have "\<dots> = push_bit k (take_bit (Suc n) b)"
      by (rule step_eq)
    finally show ?thesis .
  qed
qed

lemma gfMul_1_left: "gfMul 1 b = b"
  using gfMulAux_pow[of 8 0 b] take_bit_word_eq_self[of 8 b] by (simp add: gfMul_def)

lemma gfMul_comm: "gfMul a b = gfMul b a"
proof -
  have "gfMul a b = gfMul (gfMul 1 a) b" by (simp add: gfMul_1_left)
  also have "\<dots> = gfMul (gfMul 1 b) a" unfolding gfMul_def by (rule gfMulAux_swap)
  finally show ?thesis by (simp add: gfMul_1_left)
qed

lemma gfMul_assoc: "gfMul (gfMul a b) c = gfMul a (gfMul b c)"
proof -
  have "gfMul (gfMul a b) c = gfMul (gfMul b a) c" by (simp add: gfMul_comm)
  also have "\<dots> = gfMul (gfMul b c) a" unfolding gfMul_def by (rule gfMulAux_swap)
  finally show ?thesis by (simp add: gfMul_comm)
qed

lemma gfMul_xor_left: "gfMul (a XOR b) c = gfMul a c XOR gfMul b c"
  unfolding gfMul_def by (rule gfMulAux_xor_left)

lemma gfMul_0_left: "gfMul 0 a = 0"
  unfolding gfMul_def by (rule gfMulAux_0_left)

lemma gfMul_2_left: "gfMul 2 a = xtime a"
proof -
  have "gfMul 2 a = gfMul (xtime 1) a" by (simp add: xtime_def)
  also have "\<dots> = xtime (gfMul 1 a)" unfolding gfMul_def by (rule gfMulAux_xtime)
  finally show ?thesis by (simp add: gfMul_1_left)
qed


text \<open>
  Modelled from the spec: the type of the elements of the field of the absent
  library, with addition (XOR), its neutral element, negation, subtraction and
  multiplication.
\<close>

datatype gf256 = GF (byte: "8 word")

instantiation gf256 :: comm_ring_1
begin

definition zero_gf256 :: gf256 where
  "zero_gf256 = GF 0"

definition one_gf256 :: gf256 where
  "one_gf256 = GF 1"

definition plus_gf256 :: "gf256 \<Rightarrow> gf256 \<Rightarrow> gf256" where
  "plus_gf256 a b = GF (byte a XOR byte b)"

definition uminus_gf256 :: "gf256 \<Rightarrow> gf256" where
  "uminus_gf256 a = a"

definition minus_gf256 :: "gf256 \<Rightarrow> gf256 \<Rightarrow> gf256" where
  "minus_gf256 a b = GF (byte a XOR byte b)"

definition times_gf256 :: "gf256 \<Rightarrow> gf256 \<Rightarrow> gf256" where
  "times_gf256 a b = GF (gfMul (byte a) (byte b))"

instance
proof
  fix a b c :: gf256
  show "a * b * c = a * (b * c)"
    by (simp add: times_gf256_def gfMul_assoc)
  show "a * b = b * a"
    by (simp add: times_gf256_def gfMul_comm)
  show "1 * a = a"
    by (simp add: times_gf256_def one_gf256_def gfMul_1_left)
  show "a + b + c = a + (b + c)"
    by (simp add: plus_gf256_def ac_simps)
  show "a + b = b + a"
    by (simp add: plus_gf256_def ac_simps)
  show "0 + a = a"
    by (simp add: plus_gf256_def zero_gf256_def)
  show "- a + a = 0"
    by (simp add: plus_gf256_def zero_gf256_def uminus_gf256_def)
  show "a - b = a + - b"
    by (simp add: plus_gf256_def minus_gf256_def uminus_gf256_def)
  show "(a + b) * c = a * c + b * c"
    by (simp add: plus_gf256_def times_gf256_def gfMul_xor_left)
  show "(0 :: gf256) \<noteq> 1"
    by (simp add: zero_gf256_def one_gf256_def)
qed

end

text \<open>The powers of the element 2, which generates every element but zero: the table
  is used to show that every element but zero has an inverse.\<close>

definition expTable :: "8 word list" where
  "expTable =
     [1, 2, 4, 8, 16, 32, 64, 128, 29, 58, 116, 232, 205, 135, 19, 38, 76, 152, 45, 90,
      180, 117, 234, 201, 143, 3, 6, 12, 24, 48, 96, 192, 157, 39, 78, 156, 37, 74, 148, 53,
      106, 212, 181, 119, 238, 193, 159, 35, 70, 140, 5, 10, 20, 40, 80, 160, 93, 186, 105, 210,
      185, 111, 222, 161, 95, 190, 97, 194, 153, 47, 94, 188, 101, 202, 137, 15, 30, 60, 120, 240,
      253, 231, 211, 187, 107, 214, 177, 127, 254, 225, 223, 163, 91, 182, 113, 226, 217, 175, 67, 134,
      17, 34, 68, 136, 13, 26, 52, 104, 208, 189, 103, 206, 129, 31, 62, 124, 248, 237, 199, 147,
      59, 118, 236, 197, 151, 51, 102, 204, 133, 23, 46, 92, 184, 109, 218, 169, 79, 158, 33, 66,
      132, 21, 42, 84, 168, 77, 154, 41, 82, 164, 85, 170, 73, 146, 57, 114, 228, 213, 183, 115,
      230, 209, 191, 99, 198, 145, 63, 126, 252, 229, 215, 179, 123, 246, 241, 255, 227, 219, 171, 75,
      150, 49, 98, 196, 149, 55, 110, 220, 165, 87, 174, 65, 130, 25, 50, 100, 200, 141, 7, 14,
      28, 56, 112, 224, 221, 167, 83, 166, 81, 162, 89, 178, 121, 242, 249, 239, 195, 155, 43, 86,
      172, 69, 138, 9, 18, 36, 72, 144, 61, 122, 244, 245, 247, 243, 251, 235, 203, 139, 11, 22,
      44, 88, 176, 125, 250, 233, 207, 131, 27, 54, 108, 216, 173, 71, 142]"

fun orbit :: "nat \<Rightarrow> 8 word \<Rightarrow> 8 word list" where
  "orbit 0 a = []"
| "orbit (Suc n) a = a # orbit n (xtime a)"

lemma orbit_table: "orbit 255 1 = expTable"
  by code_simp

lemma log_table:
  "map (\<lambda>i. expTable ! i)
     [0, 1, 25, 2, 50, 26, 198, 3, 223, 51, 238, 27, 104, 199, 75, 4, 100, 224, 14, 52,
     141, 239, 129, 28, 193, 105, 248, 200, 8, 76, 113, 5, 138, 101, 47, 225, 36, 15, 33, 53,
     147, 142, 218, 240, 18, 130, 69, 29, 181, 194, 125, 106, 39, 249, 185, 201, 154, 9, 120, 77,
     228, 114, 166, 6, 191, 139, 98, 102, 221, 48, 253, 226, 152, 37, 179, 16, 145, 34, 136, 54,
     208, 148, 206, 143, 150, 219, 189, 241, 210, 19, 92, 131, 56, 70, 64, 30, 66, 182, 163, 195,
     72, 126, 110, 107, 58, 40, 84, 250, 133, 186, 61, 202, 94, 155, 159, 10, 21, 121, 43, 78,
     212, 229, 172, 115, 243, 167, 87, 7, 112, 192, 247, 140, 128, 99, 13, 103, 74, 222, 237, 49,
     197, 254, 24, 227, 165, 153, 119, 38, 184, 180, 124, 17, 68, 146, 217, 35, 32, 137, 46, 55,
     63, 209, 91, 149, 188, 207, 205, 144, 135, 151, 178, 220, 252, 190, 97, 242, 86, 211, 171, 20,
     42, 93, 158, 132, 60, 57, 83, 71, 109, 65, 162, 31, 45, 67, 216, 183, 123, 164, 118, 196,
     23, 73, 236, 127, 12, 111, 246, 108, 161, 59, 82, 41, 157, 85, 170, 251, 96, 134, 177, 187,
     204, 62, 90, 203, 89, 95, 176, 156, 169, 160, 81, 11, 245, 22, 235, 122, 117, 44, 215, 79,
     174, 213, 233, 230, 231, 173, 232, 116, 214, 244, 234, 168, 80, 88, 175]
   = map of_nat [1..<256]"
  by code_simp

lemma log_bound:
  "list_all (\<lambda>i :: nat. i < 255)
     [0, 1, 25, 2, 50, 26, 198, 3, 223, 51, 238, 27, 104, 199, 75, 4, 100, 224, 14, 52,
     141, 239, 129, 28, 193, 105, 248, 200, 8, 76, 113, 5, 138, 101, 47, 225, 36, 15, 33, 53,
     147, 142, 218, 240, 18, 130, 69, 29, 181, 194, 125, 106, 39, 249, 185, 201, 154, 9, 120, 77,
     228, 114, 166, 6, 191, 139, 98, 102, 221, 48, 253, 226, 152, 37, 179, 16, 145, 34, 136, 54,
     208, 148, 206, 143, 150, 219, 189, 241, 210, 19, 92, 131, 56, 70, 64, 30, 66, 182, 163, 195,
     72, 126, 110, 107, 58, 40, 84, 250, 133, 186, 61, 202, 94, 155, 159, 10, 21, 121, 43, 78,
     212, 229, 172, 115, 243, 167, 87, 7, 112, 192, 247, 140, 128, 99, 13, 103, 74, 222, 237, 49,
     197, 254, 24, 227, 165, 153, 119, 38, 184, 180, 124, 17, 68, 146, 217, 35, 32, 137, 46, 55,
     63, 209, 91, 149, 188, 207, 205, 144, 135, 151, 178, 220, 252, 190, 97, 242, 86, 211, 171, 20,
     42, 93, 158, 132, 60, 57, 83, 71, 109, 65, 162, 31, 45, 67, 216, 183, 123, 164, 118, 196,
     23, 73, 236, 127, 12, 111, 246, 108, 161, 59, 82, 41, 157, 85, 170, 251, 96, 134, 177, 187,
     204, 62, 90, 203, 89, 95, 176, 156, 169, 160, 81, 11, 245, 22, 235, 122, 117, 44, 215, 79,
     174, 213, 233, 230, 231, 173, 232, 116, 214, 244, 234, 168, 80, 88, 175]"
  by simp

lemma orbit_nth: "i < n \<Longrightarrow> orbit n a ! i = (xtime ^^ i) a"
proof (induction n arbitrary: a i)
  case 0
  then show ?case by simp
next
  case (Suc n)
  then show ?case
    by (cases i) (simp_all add: funpow_swap1)
qed

lemma GF_2_power: "GF 2 ^ n = GF ((xtime ^^ n) 1)"
  by (induction n) (simp_all add: one_gf256_def times_gf256_def gfMul_2_left)

lemma GF_power: "GF a ^ n = GF (gfPow a n)"
  by (induction n) (simp_all add: one_gf256_def times_gf256_def)

lemma generated:
  assumes "a \<noteq> 0"
  shows "\<exists>i. GF a = GF 2 ^ i"
proof -
  define logs :: "nat list" where "logs =
     [0, 1, 25, 2, 50, 26, 198, 3, 223, 51, 238, 27, 104, 199, 75, 4, 100, 224, 14, 52,
     141, 239, 129, 28, 193, 105, 248, 200, 8, 76, 113, 5, 138, 101, 47, 225, 36, 15, 33, 53,
     147, 142, 218, 240, 18, 130, 69, 29, 181, 194, 125, 106, 39, 249, 185, 201, 154, 9, 120, 77,
     228, 114, 166, 6, 191, 139, 98, 102, 221, 48, 253, 226, 152, 37, 179, 16, 145, 34, 136, 54,
     208, 148, 206, 143, 150, 219, 189, 241, 210, 19, 92, 131, 56, 70, 64, 30, 66, 182, 163, 195,
     72, 126, 110, 107, 58, 40, 84, 250, 133, 186, 61, 202, 94, 155, 159, 10, 21, 121, 43, 78,
     212, 229, 172, 115, 243, 167, 87, 7, 112, 192, 247, 140, 128, 99, 13, 103, 74, 222, 237, 49,
     197, 254, 24, 227, 165, 153, 119, 38, 184, 180, 124, 17, 68, 146, 217, 35, 32, 137, 46, 55,
     63, 209, 91, 149, 188, 207, 205, 144, 135, 151, 178, 220, 252, 190, 97, 242, 86, 211, 171, 20,
     42, 93, 158, 132, 60, 57, 83, 71, 109, 65, 162, 31, 45, 67, 216, 183, 123, 164, 118, 196,
     23, 73, 236, 127, 12, 111, 246, 108, 161, 59, 82, 41, 157, 85, 170, 251, 96, 134, 177, 187,
     204, 62, 90, 203, 89, 95, 176, 156, 169, 160, 81, 11, 245, 22, 235, 122, 117, 44, 215, 79,
     174, 213, 233, 230, 231, 173, 232, 116, 214, 244, 234, 168, 80, 88, 175]"
  define k where "k = unat a - 1"
  have len: "length logs = 255" by (simp add: logs_def)
  have tab: "map (\<lambda>i. expTable ! i) logs = map of_nat [1..<256]"
    unfolding logs_def by (rule log_table)
  have bound: "list_all (\<lambda>i. i < 255) logs"
    unfolding logs_def by (rule log_bound)
  from assms have "unat a \<noteq> 0" by (simp add: unat_0_iff)
  moreover have "unat a < 256" using unsigned_less[of a, where ?'a = nat] by simp
  ultimately have k: "k < 255" "Suc k = unat a" by (simp_all add: k_def)
  have "map (\<lambda>i. expTable ! i) logs ! k = expTable ! (logs ! k)"
    using k(1) len by (intro nth_map) simp
  moreover have "map of_nat [1..<256] ! k = (of_nat (Suc k) :: 8 word)"
    using k(1) by (simp only: nth_map length_upt nth_upt) simp
  ultimately have e: "expTable ! (logs ! k) = a"
    unfolding tab k(2) by simp
  from bound k(1) have "logs ! k < 255"
    unfolding list_all_length len by blast
  then have "expTable ! (logs ! k) = (xtime ^^ (logs ! k)) 1"
    unfolding orbit_table[symmetric] by (rule orbit_nth)
  with e show ?thesis
    unfolding GF_2_power by metis
qed

lemma GF_2_255: "GF 2 ^ 255 = 1"
proof -
  have "(xtime ^^ 254) 1 = expTable ! 254"
    unfolding orbit_table[symmetric] by (rule orbit_nth[symmetric]) simp
  also have "\<dots> = 142"
    by code_simp
  finally have "(xtime ^^ 255) 1 = xtime 142"
    by (simp add: numeral_eq_Suc)
  also have "\<dots> = 1"
    by (simp add: xtime_def)
  finally show ?thesis
    by (simp add: GF_2_power one_gf256_def)
qed

lemma power_255:
  assumes "a \<noteq> (0 :: gf256)"
  shows "a ^ 255 = 1"
proof -
  obtain w where w: "a = GF w" by (cases a)
  with assms have "w \<noteq> 0" by (simp add: zero_gf256_def)
  then obtain i where "GF w = GF 2 ^ i" using generated by blast
  then have "a ^ 255 = (GF 2 ^ 255) ^ i"
    unfolding w by (simp add: power_mult[symmetric] mult.commute)
  then show ?thesis by (simp add: GF_2_255)
qed

lemma gfPow_0: "0 < n \<Longrightarrow> gfPow 0 n = 0"
  by (cases n) (simp_all add: gfMul_0_left)

text \<open>Modelled from the spec: inverse and division in the field of the absent library.\<close>

instantiation gf256 :: field
begin

definition inverse_gf256 :: "gf256 \<Rightarrow> gf256" where
  "inverse_gf256 a = GF (gfInv (byte a))"

definition divide_gf256 :: "gf256 \<Rightarrow> gf256 \<Rightarrow> gf256" where
  "divide_gf256 a b = a * inverse b"

instance
proof
  fix a b :: gf256
  have inv: "inverse a = a ^ 254"
    by (cases a) (simp add: inverse_gf256_def gfInv_def GF_power)
  show "inverse a * a = 1" if "a \<noteq> 0"
  proof -
    have "inverse a * a = a ^ 254 * a ^ 1" unfolding inv by simp
    also have "\<dots> = a ^ (254 + 1)" by (rule power_add[symmetric])
    finally show ?thesis using power_255[OF that] by simp
  qed
  show "a div b = a * inverse b"
    by (rule divide_gf256_def)
  show "inverse (0 :: gf256) = 0"
    by (simp add: inverse_gf256_def gfInv_def zero_gf256_def gfPow_0)
qed

end

subsection \<open>Split and combine\<close>

text \<open>
  Modelled from the spec: the spec's Share without the crate id, which the
  splitter does not use: the x-coordinate and the evaluations, one per byte of the
  secret.
\<close>

record share =
  xCoord :: gf256
  evals :: "gf256 list"

datatype splitter_error = ReconstructionError

text \<open>
  Modelled from the spec: evaluation of a polynomial given by its coefficients,
  the constant term first, as the absent library's split needs it.
\<close>

definition polyEval :: "gf256 list \<Rightarrow> gf256 \<Rightarrow> gf256" where
  "polyEval cs x = foldr (\<lambda>c acc. c + x * acc) cs 0"

text \<open>
  Modelled from the spec: \<open>split(secret, n, k)\<close> of the absent library, for
  \<open>1 \<le> k \<le> n\<close> and \<open>n \<le> 255\<close>. For the byte at position \<open>pos\<close> the polynomial
  has the secret byte as its constant term and the random coefficients
  \<open>rnd pos 1\<close>, ..., \<open>rnd pos (k - 1)\<close>; share number \<open>x\<close> (from 1 to n) holds the
  values of all the polynomials at \<open>x\<close>. The random choices \<open>rnd\<close> are a parameter.
\<close>

definition split ::
  "(nat \<Rightarrow> nat \<Rightarrow> gf256) \<Rightarrow> gf256 list \<Rightarrow> nat \<Rightarrow> nat \<Rightarrow> share list" where
  "split rnd secret n k =
     map (\<lambda>x. \<lparr>xCoord = GF (of_nat x),
                evals = map (\<lambda>pos. polyEval (secret ! pos # map (rnd pos) [1..<k]) (GF (of_nat x)))
                          [0..<length secret]\<rparr>)
       [1..<Suc n]"

text \<open>
  Modelled from the spec: Lagrange interpolation at 0 through the given points,
  as the absent library's combine performs it for each byte position.
\<close>

definition lagrangeAtZero :: "(gf256 \<times> gf256) list \<Rightarrow> gf256" where
  "lagrangeAtZero pts =
     sum_list (map (\<lambda>i. snd (pts ! i) *
                  prod_list (map (\<lambda>j. if j = i then 1
                                       else (0 - fst (pts ! j)) / (fst (pts ! i) - fst (pts ! j)))
                               [0..<length pts]))
       [0..<length pts])"

text \<open>
  Modelled from the spec: \<open>combine(shares)\<close> of the absent library. It fails on
  fewer than 2 shares, on a repeated x-coordinate and on shares that disagree in
  their number of field elements; otherwise it interpolates each byte position.
\<close>

definition combine :: "share list \<Rightarrow> splitter_error + gf256 list" where
  "combine shares =
     (if length shares < 2 \<or> \<not> distinct (map xCoord shares) then Inl ReconstructionError
      else if \<exists>s \<in> set shares. length (evals s) \<noteq> length (evals (hd shares))
      then Inl ReconstructionError
      else Inr (map (\<lambda>pos. lagrangeAtZero (map (\<lambda>s. (xCoord s, evals s ! pos)) shares))
                 [0..<length (evals (hd shares))]))"

subsection \<open>Shares as strings\<close>

text \<open>
  Modelled from the spec: a share is encoded as one hexadecimal string, the
  x-coordinate followed by the evaluations; a string that is not such an encoding is
  malformed. \<open>shareStrings\<close> and \<open>combineStrings\<close> are the library's two functions
  as the server calls them, on hexadecimal strings.
\<close>

definition encodeShare :: "share \<Rightarrow> string" where
  "encodeShare sh = toHex (byte (xCoord sh) # map byte (evals sh))"

definition decodeShare :: "string \<Rightarrow> share option" where
  "decodeShare str =
     (case bufferFromHex str of
        [] \<Rightarrow> None
      | x # ys \<Rightarrow> if toHex (x # ys) = str then Some \<lparr>xCoord = GF x, evals = map GF ys\<rparr> else None)"

definition shareStrings :: "(nat \<Rightarrow> nat \<Rightarrow> gf256) \<Rightarrow> string \<Rightarrow> nat \<Rightarrow> nat \<Rightarrow> string list" where
  "shareStrings rnd secretHex n k =
     map encodeShare (split rnd (map GF (bufferFromHex secretHex)) n k)"

definition combineStrings :: "string list \<Rightarrow> splitter_error + string" where
  "combineStrings strs =
     (case those (map decodeShare strs) of
        None \<Rightarrow> Inl ReconstructionError
      | Some shares \<Rightarrow>
          (case combine shares of
             Inl e \<Rightarrow> Inl e
           | Inr secret \<Rightarrow> Inr (toHex (map byte secret))))"

section \<open>Example inputs\<close>

text \<open>
  A crate for recipient 7: created at time 100, to be released at 200. And three
  recipients: an account without code; a contract whose hook calls \<open>markAsReleased\<close>
  for the token it is receiving and passes a revert on; and a contract whose hook
  calls \<open>isReleaseReady\<close> for the token it is receiving and reverts unless the answer
  is the one it expects.
\<close>

definition exampleCreate :: "receiver \<Rightarrow> revert + (storage \<times> uint256)" where
  "exampleCreate onERC721Received =
     createCrate deployed 100 7 ''QmExample'' 200 ''uri'' [''http://localhost:4001'']
       onERC721Received"

definition plainAccount :: receiver where
  "plainAccount s = Some s"

definition releasingRecipient :: "address \<Rightarrow> uint256 \<Rightarrow> uint256 \<Rightarrow> receiver" where
  "releasingRecipient self timestamp tokenId s =
     (case markAsReleased s timestamp self tokenId of
        Inl e \<Rightarrow> None
      | Inr s' \<Rightarrow> Some s')"

definition askingRecipient :: "uint256 \<Rightarrow> uint256 \<Rightarrow> bool \<Rightarrow> receiver" where
  "askingRecipient timestamp tokenId expected s =
     (if isReleaseReady s timestamp tokenId = Inr expected then Some s else None)"

text \<open>The storage at the moment the hook of the example's recipient is called.\<close>

definition exampleHookStorage :: storage where
  "exampleHookStorage = (case mint deployed 7 0 of Inl e \<Rightarrow> deployed | Inr s \<Rightarrow> s)"

text \<open>The storage after the example's \<open>createCrate\<close> has returned, for the third and
  for the second recipient.\<close>

definition exampleAsked :: storage where
  "exampleAsked =
     (case exampleCreate (askingRecipient 100 0 True) of
        Inl e \<Rightarrow> deployed
      | Inr (s, tokenId) \<Rightarrow> s)"

definition exampleReentered :: storage where
  "exampleReentered =
     (case exampleCreate (releasingRecipient 7 100 0) of
        Inl e \<Rightarrow> deployed
      | Inr (s, tokenId) \<Rightarrow> s)"

text \<open>A two-byte upload, a random source of zero bytes, and five strings standing for
  the shares the library returns.\<close>

definition exampleShares :: "string list" where
  "exampleShares = [''01a7c3e9'', ''02b8d4fa'', ''03c9e50b'', ''04daf61c'', ''05eb072d'']"


definition exampleRng :: rng where
  "exampleRng i = 0"

definition exampleDate :: string where
  "exampleDate = ''2025-01-01T00:00:00.000Z''"

definition exampleFile :: uploadedFile where
  "exampleFile = \<lparr>buffer = [0x68, 0x69], originalname = ''note.txt'',
                   mimetype = ''text/plain'', fileSize = 2\<rparr>"

text \<open>An outside world in which the keepers listed in \<open>up\<close> (by index) accept their
  share and the others refuse the connection.\<close>

definition exampleEnv :: "nat list \<Rightarrow> env" where
  "exampleEnv up =
     \<lparr>aesEncryptBlock = (\<lambda>k b. xorBytes b (take 16 k)),
      aesDecryptBlock = (\<lambda>k b. xorBytes b (take 16 k)),
      pinFileToIPFS = (\<lambda>b opts. Inr ''QmExample''),
      secretsShare = (\<lambda>key n k. Inr exampleShares),
      secretsCombine = (\<lambda>shares. Inl ''Invalid share''),
      axiosPost = (\<lambda>url b. if url \<in> set (map storeShareUrl up)
                             then Inr (JObject [(''success'', JBool True)])
                             else Inl ''connect ECONNREFUSED''),
      axiosGet = (\<lambda>url. Inl ''Request failed with status code 404''),
      valueToString = (\<lambda>v. Inl ''Cannot convert object to primitive value'')\<rparr>"

definition zeroKey :: string where
  "zeroKey = replicate 64 (CHR ''0'')"

text \<open>A random source that counts, a keyed block permutation that is its own inverse
  (standing for AES in examples), and random coefficients for the splitter.\<close>

definition countingRng :: rng where
  "countingRng i = of_nat i"

definition toyBlock :: "bytes \<Rightarrow> bytes \<Rightarrow> bytes" where
  "toyBlock k b = xorBytes b (take 16 k)"

definition exampleCoeffs :: "nat \<Rightarrow> nat \<Rightarrow> gf256" where
  "exampleCoeffs pos j = GF (of_nat (7 * pos + j))"

section \<open>Properties of the ledger\<close>

lemmas erc_defs = ownerOf_internal_def ownerOf_def mint_def safeMint_def setTokenURI_def

text \<open>
  Once \<open>createCrate\<close> has returned, whatever the recipient's hook did, the token it
  returns exists, its crate holds the release time of the call and is not released,
  and \<open>isReleaseReady\<close> compares the timestamp with that release time.
\<close>

lemma createCrate_Inr:
  assumes "createCrate s ts recipient cid relTime uri urls onReceived = Inr (s', tokenId)"
  shows "tokenId = tokenIdCounter s" and "owners s tokenId = 0" and "recipient \<noteq> 0"
    and "ts < relTime" and "owners s' tokenId \<noteq> 0"
    and "crateInfo s' tokenId =
           \<lparr>ipfsCid = cid, releaseTime = relTime, keeperUrls = urls,
            released = False, createdAt = ts\<rparr>"
    and "isReleaseReady s' t tokenId = Inr (relTime \<le> t)"
  using assms
  by (auto simp: createCrate_def isReleaseReady_def erc_defs Let_def
      split: if_splits sum.splits option.splits)

text \<open>
  \<open>markAsReleased\<close>, as a function of the storage it is called on: it succeeds
  exactly when the token exists, the caller owns it, the release time the storage
  holds for it is not after the timestamp, and the crate is not yet released; it
  then sets the flag and changes nothing else of the crates.
\<close>

lemma markAsReleased_iff:
  "(\<exists>s'. markAsReleased s ts sender tokenId = Inr s') \<longleftrightarrow>
     owners s tokenId \<noteq> 0 \<and> owners s tokenId = sender
     \<and> releaseTime (crateInfo s tokenId) \<le> ts \<and> \<not> released (crateInfo s tokenId)"
  by (auto simp: markAsReleased_def isReleaseReady_def erc_defs Let_def split: if_splits sum.splits)

lemma markAsReleased_Inr:
  assumes "markAsReleased s ts sender tokenId = Inr s'"
  shows "owners s' = owners s"
    and "crateInfo s' = (crateInfo s)(tokenId := (crateInfo s tokenId)\<lparr>released := True\<rparr>)"
  using assms
  by (auto simp: markAsReleased_def isReleaseReady_def erc_defs Let_def split: if_splits sum.splits)

lemmas example_defs = exampleCreate_def plainAccount_def releasingRecipient_def
  askingRecipient_def exampleHookStorage_def exampleAsked_def exampleReentered_def
  createCrate_def markAsReleased_def isReleaseReady_def deployed_def zeroCrate_def erc_defs Let_def

lemma example_plain:
  "map_sum id snd (exampleCreate plainAccount) = Inr 0"
  "isReleaseReady (case exampleCreate plainAccount of Inr (s, k) \<Rightarrow> s | Inl e \<Rightarrow> deployed) 199 0
     = Inr False"
  "isReleaseReady (case exampleCreate plainAccount of Inr (s, k) \<Rightarrow> s | Inl e \<Rightarrow> deployed) 200 0
     = Inr True"
  by (simp_all add: example_defs)

text \<open>
  Claim C4 does not hold of the code. \<open>createCrate\<close> mints the token, which calls the
  recipient's hook, before it writes the crate. Inside the hook the token exists and
  its crate is still empty, so \<open>isReleaseReady\<close> compares the timestamp with zero. In
  the example, at time 100 and for the crate that is being created with release time
  200, the recipient's hook is told that the release is ready (a recipient that
  insists on that answer accepts the token, one that insists on the opposite answer
  makes the call revert); once the call has returned, at the same time 100, the
  answer for the same token is that the release is not ready.
\<close>

theorem isReleaseReady_inside_createCrate:
  "mint deployed 7 0 = Inr exampleHookStorage
   \<and> ownerOf exampleHookStorage 0 = Inr 7
   \<and> isReleaseReady exampleHookStorage 100 0 = Inr True
   \<and> exampleCreate (askingRecipient 100 0 True) = Inr (exampleAsked, 0)
   \<and> exampleCreate (askingRecipient 100 0 False) = Inl ERC721TransferToNonReceiver
   \<and> ownerOf exampleAsked 0 = Inr 7
   \<and> releaseTime (crateInfo exampleAsked 0) = 200
   \<and> isReleaseReady exampleAsked 100 0 = Inr False"
  by (simp add: example_defs)

text \<open>
  Claim C10 does not hold of the code, for the same reason. Inside the hook the
  recipient owns the token and the crate is still empty, so \<open>markAsReleased\<close>
  succeeds at time 100 although the crate is being created with release time 200,
  and sets the flag; \<open>createCrate\<close> then writes the crate over it, with the flag
  false. In the example the release event is emitted before the creation event, the
  token exists with its flag false when the call has returned, and the owner can
  mark it as released a second time at time 200.
\<close>

theorem markAsReleased_inside_createCrate:
  "mint deployed 7 0 = Inr exampleHookStorage
   \<and> releasingRecipient 7 100 0 exampleHookStorage \<noteq> None
   \<and> released (crateInfo (the (releasingRecipient 7 100 0 exampleHookStorage)) 0)
   \<and> exampleCreate (releasingRecipient 7 100 0) = Inr (exampleReentered, 0)
   \<and> events exampleReentered
        = [CrateReleased 0 7 100,
           CrateCreated 0 7 ''QmExample'' 200 [''http://localhost:4001'']]
   \<and> ownerOf exampleReentered 0 = Inr 7
   \<and> releaseTime (crateInfo exampleReentered 0) = 200
   \<and> \<not> released (crateInfo exampleReentered 0)
   \<and> map_sum id events (markAsReleased exampleReentered 200 7 0)
        = Inr [CrateReleased 0 7 100,
               CrateCreated 0 7 ''QmExample'' 200 [''http://localhost:4001''],
               CrateReleased 0 7 200]"
  by (simp add: example_defs)

section \<open>Properties of the orchestrator\<close>

lemma distinct_KEEPER_NODES: "distinct KEEPER_NODES" "length KEEPER_NODES = 5"
  by (simp_all add: KEEPER_NODES_def)

lemma distributionCount_5: "length shares = 5 \<Longrightarrow> distributionCount shares = 5"
  by (simp add: distributionCount_def KEEPER_NODES_def)

lemma results_eq:
  "distributionResults env cid shares =
     map (\<lambda>i. if delivered env cid shares i
               then Some (projr (axiosPost env (storeShareUrl i) (storeShareBody cid shares i)))
               else None) [0..<distributionCount shares]"
  by (auto simp: distributionResults_def delivered_def split: sum.splits)

lemma successes_eq:
  "length (filter (\<lambda>r. r \<noteq> None) (distributionResults env cid shares)) =
     length (filter (delivered env cid shares) [0..<distributionCount shares])"
proof -
  have "length (filter (\<lambda>r. r \<noteq> None) (map f xs)) = length (filter (\<lambda>i. f i \<noteq> None) xs)"
    for f :: "nat \<Rightarrow> json option" and xs
    by (induction xs) auto
  then show ?thesis
    unfolding results_eq by (simp cong: filter_cong)
qed

lemma active_eq:
  "activeKeeperUrls (distributionResults env cid shares) =
     map (\<lambda>i. KEEPER_NODES ! i) (filter (delivered env cid shares) [0..<distributionCount shares])"
proof -
  have "filter (\<lambda>i. distributionResults env cid shares ! i \<noteq> None) [0..<distributionCount shares]
      = filter (delivered env cid shares) [0..<distributionCount shares]"
    by (rule filter_cong) (auto simp: results_eq)
  then show ?thesis
    by (simp add: activeKeeperUrls_def) (simp add: distributionResults_def)
qed

lemma upload_reaches:
  assumes "beforeSplit env g isoDate file = Inr (lg, cs, cid, shares)"
  shows "upload env g isoDate (Some file) = afterSplit env lg cs cid shares"
  using assms by (simp add: upload_def)

lemma afterSplit_reply:
  assumes "length shares = 5"
  shows "reply (afterSplit env lg cs cid shares) =
     (if successes env cid shares < 3 then
        \<lparr>status = 500, body = JsonBody (JObject
          [(''error'', JString
              ''Failed to distribute enough shares to keeper nodes. Need at least 3 keepers online.''),
           (''successfulDistributions'', JNumber (successes env cid shares)),
           (''required'', JNumber 3),
           (''totalKeepers'', JNumber 5)])\<rparr>
      else
        \<lparr>status = 200, body = JsonBody (JObject
          [(''ipfsCid'', JString cid),
           (''sharesDistributed'', JNumber (successes env cid shares)),
           (''keeperUrls'', JArray (map JString
              (map (\<lambda>i. KEEPER_NODES ! i) (filter (delivered env cid shares) [0..<5])))),
           (''manualShares'', JArray [JString (shares ! 1), JString (shares ! 2)])])\<rparr>)"
  unfolding afterSplit_def Let_def successes_eq active_eq distributionCount_5[OF assms] successes_def
  using assms by (simp add: at_def distinct_KEEPER_NODES)

text \<open>
  Claim C3. When the upload handler reaches the distribution of the five shares, its
  response is the success response exactly when at least 3 of the 5 POSTs to the
  keepers succeeded; with exactly 3 it succeeds, and with 2 or fewer the response is
  the quorum error (status 500, with the number of successes, the required 3 and
  the total 5), which carries neither a content id nor a keeper list nor a share.
\<close>

theorem upload_quorum:
  assumes "beforeSplit env g isoDate file = Inr (lg, cs, cid, shares)"
    and "length shares = 5"
  shows "(status (reply (upload env g isoDate (Some file))) = 200
            \<longleftrightarrow> 3 \<le> successes env cid shares)
       \<and> (successes env cid shares = 3 \<longrightarrow>
            status (reply (upload env g isoDate (Some file))) = 200)
       \<and> (successes env cid shares \<le> 2 \<longrightarrow>
            reply (upload env g isoDate (Some file)) =
              \<lparr>status = 500, body = JsonBody (JObject
                [(''error'', JString
                    ''Failed to distribute enough shares to keeper nodes. Need at least 3 keepers online.''),
                 (''successfulDistributions'', JNumber (successes env cid shares)),
                 (''required'', JNumber 3),
                 (''totalKeepers'', JNumber 5)])\<rparr>)"
  unfolding upload_reaches[OF assms(1)] afterSplit_reply[OF assms(2)]
  by auto

text \<open>
  Claim C9. On success, the \<open>keeperUrls\<close> field of the response lists exactly the
  keeper endpoints whose POST succeeded, in keeper order: its length is the number of
  successes (4 when 4 keepers were reachable), and an endpoint is in the list exactly
  when its delivery succeeded.
\<close>

theorem upload_keeper_urls:
  assumes "beforeSplit env g isoDate file = Inr (lg, cs, cid, shares)"
    and "length shares = 5"
    and "3 \<le> successes env cid shares"
  shows "\<exists>urls. replyField (upload env g isoDate (Some file)) ''keeperUrls''
                   = Some (JArray (map JString urls))
           \<and> urls = map (\<lambda>i. KEEPER_NODES ! i) (filter (delivered env cid shares) [0..<5])
           \<and> length urls = successes env cid shares
           \<and> (\<forall>i < 5. KEEPER_NODES ! i \<in> set urls \<longleftrightarrow> delivered env cid shares i)
           \<and> (successes env cid shares = 4 \<longrightarrow> length urls = 4)"
proof -
  let ?urls = "map (\<lambda>i. KEEPER_NODES ! i) (filter (delivered env cid shares) [0..<5])"
  have f: "replyField (upload env g isoDate (Some file)) ''keeperUrls''
             = Some (JArray (map JString ?urls))"
    unfolding upload_reaches[OF assms(1)] replyField_def afterSplit_reply[OF assms(2)]
    using assms(3) by simp
  have m: "KEEPER_NODES ! i \<in> set ?urls \<longleftrightarrow> delivered env cid shares i" if "i < 5" for i
  proof
    assume "KEEPER_NODES ! i \<in> set ?urls"
    then obtain j where j: "j < 5" "delivered env cid shares j" "KEEPER_NODES ! j = KEEPER_NODES ! i"
      by auto
    with that distinct_KEEPER_NODES have "j = i"
      by (simp add: nth_eq_iff_index_eq)
    with j show "delivered env cid shares i" by simp
  next
    assume "delivered env cid shares i"
    with that show "KEEPER_NODES ! i \<in> set ?urls" by auto
  qed
  show ?thesis
    using f m by (intro exI[of _ ?urls]) (simp add: successes_def)
qed

lemma hexValue_hexDigit: "n < 16 \<Longrightarrow> hexValue (hexDigit n) = Some n"
proof -
  have "list_all (\<lambda>n. hexValue (hexDigit n) = Some n) [0..<16]"
    by code_simp
  then show "n < 16 \<Longrightarrow> hexValue (hexDigit n) = Some n"
    by (simp add: list_all_iff)
qed

lemma bufferFromHex_toHex: "bufferFromHex (toHex bs) = bs"
proof (induction bs)
  case Nil
  then show ?case by (simp add: toHex_def)
next
  case (Cons b bs)
  have lt: "unat b div 16 < 16" "unat b mod 16 < 16"
    using unsigned_less[of b, where ?'a = nat] by simp_all
  have "(of_nat (16 * (unat b div 16) + unat b mod 16) :: 8 word) = b"
    by simp
  with Cons lt show ?case
    by (simp add: toHex_def hexValue_hexDigit)
qed

lemma length_toHex: "length (toHex bs) = 2 * length bs"
  by (induction bs) (simp_all add: toHex_def)

lemma generateEncryptionKey_eq:
  "generateEncryptionKey g = (toHex (map g [0..<32]), (\<lambda>i. g (i + 32)))"
  by (simp add: generateEncryptionKey_def randomBytes_def)

lemma encryptData_generated:
  "encryptData E buf (fst (generateEncryptionKey g)) g1 =
     Inr (map g1 [0..<16] @ cbcEncrypt (E (map g [0..<32])) (map g1 [0..<16]) (pkcs7Pad buf),
          (\<lambda>i. g1 (i + 16)))"
  by (simp add: encryptData_def generateEncryptionKey_eq bufferFromHex_toHex randomBytes_def
      aes256cbcEncrypt_def)

lemma map_shift: "map (\<lambda>i. g (i + n)) [0..<k] = map g [n..<n + k]"
  by (induction k) (simp_all add: add.commute)

lemma beforeSplit_eq:
  "beforeSplit env g isoDate file =
     (case pinFileToIPFS env (encryptedUpload env g file) (pinOptions file isoDate) of
        Inl message \<Rightarrow> Inl (uploadFailed
          [[JString ''Generated encryption key (first 16 chars):'',
            JString (take 16 (fst (generateEncryptionKey g)) @ ''...'')],
           [JString ''File encrypted successfully'']]
          [PinFileToIPFS (encryptedUpload env g file) (pinOptions file isoDate)] message)
      | Inr cid \<Rightarrow>
          (case secretsShare env (fst (generateEncryptionKey g)) 5 3 of
             Inl message \<Rightarrow> Inl (uploadFailed
               [[JString ''Generated encryption key (first 16 chars):'',
                 JString (take 16 (fst (generateEncryptionKey g)) @ ''...'')],
                [JString ''File encrypted successfully''],
                [JString ''Successfully pinned encrypted file to IPFS. CID:'', JString cid],
                [JString ''Original filename:'', JString (originalname file)]]
               [PinFileToIPFS (encryptedUpload env g file) (pinOptions file isoDate),
                SecretsShare (fst (generateEncryptionKey g)) 5 3] message)
           | Inr shares \<Rightarrow> Inr
               ([[JString ''Generated encryption key (first 16 chars):'',
                  JString (take 16 (fst (generateEncryptionKey g)) @ ''...'')],
                 [JString ''File encrypted successfully''],
                 [JString ''Successfully pinned encrypted file to IPFS. CID:'', JString cid],
                 [JString ''Original filename:'', JString (originalname file)]],
                [PinFileToIPFS (encryptedUpload env g file) (pinOptions file isoDate),
                 SecretsShare (fst (generateEncryptionKey g)) 5 3],
                cid, shares)))"
proof -
  have e: "encryptData (aesEncryptBlock env) (buffer file) (fst (generateEncryptionKey g))
             (snd (generateEncryptionKey g)) = Inr (encryptedUpload env g file, (\<lambda>i. g (i + 32 + 16)))"
    unfolding encryptData_generated encryptedUpload_def
    using map_shift[of g 32 16] by (simp add: generateEncryptionKey_eq)
  show ?thesis
    unfolding beforeSplit_def
    by (simp add: e split_beta Let_def split: sum.splits)
qed

lemma afterSplit_calls:
  "calls (afterSplit env lg cs cid shares) = cs @ distributionCalls cid shares"
  by (simp add: afterSplit_def Let_def)

lemma upt_5: "[0..<5] = [0, 1, 2, 3, 4]"
  by (simp add: upt_rec)

text \<open>
  Claim C5, as amended. On success, the \<open>manualShares\<close> field of the response holds
  exactly the second and the third of the five shares, two shares and not N - 1; and
  each of the two was also POSTed to a keeper (the second share to the second keeper,
  the third to the third), which holds it whenever that delivery succeeded.
\<close>

theorem upload_manual_shares:
  assumes "beforeSplit env g isoDate file = Inr (lg, cs, cid, shares)"
    and "length shares = 5"
    and "3 \<le> successes env cid shares"
  shows "replyField (upload env g isoDate (Some file)) ''manualShares''
           = Some (JArray [JString (shares ! 1), JString (shares ! 2)])
       \<and> AxiosPost (KEEPER_NODES ! 1 @ ''/store-share'')
            (JObject [(''id'', JString cid), (''share'', JString (shares ! 1))])
            \<in> set (calls (upload env g isoDate (Some file)))
       \<and> AxiosPost (KEEPER_NODES ! 2 @ ''/store-share'')
            (JObject [(''id'', JString cid), (''share'', JString (shares ! 2))])
            \<in> set (calls (upload env g isoDate (Some file)))
       \<and> (delivered env cid shares 1 \<longleftrightarrow>
            \<not> isl (axiosPost env (KEEPER_NODES ! 1 @ ''/store-share'')
               (JObject [(''id'', JString cid), (''share'', JString (shares ! 1))])))
       \<and> (delivered env cid shares 2 \<longleftrightarrow>
            \<not> isl (axiosPost env (KEEPER_NODES ! 2 @ ''/store-share'')
               (JObject [(''id'', JString cid), (''share'', JString (shares ! 2))])))"
proof -
  have "replyField (upload env g isoDate (Some file)) ''manualShares''
           = Some (JArray [JString (shares ! 1), JString (shares ! 2)])"
    unfolding upload_reaches[OF assms(1)] replyField_def afterSplit_reply[OF assms(2)]
    using assms(3) by simp
  moreover have "set (distributionCalls cid shares)
      = (\<lambda>i. AxiosPost (storeShareUrl i) (storeShareBody cid shares i)) ` {0..<5}"
    by (simp add: distributionCalls_def distributionCount_5[OF assms(2)])
  ultimately show ?thesis
    unfolding upload_reaches[OF assms(1)] afterSplit_calls
    by (auto simp: storeShareUrl_def storeShareBody_def delivered_def)
qed




lemma trim_empty_iff: "trim s = [] \<longleftrightarrow> (\<forall>c \<in> set s. isWhiteSpace c)"
proof -
  have "trim s = [] \<longleftrightarrow> (\<forall>c \<in> set (dropWhile isWhiteSpace s). isWhiteSpace c)"
    by (simp add: trim_def dropWhile_eq_Nil_conv)
  also have "\<dots> \<longleftrightarrow> (\<forall>c \<in> set s. isWhiteSpace c)"
  proof
    assume a: "\<forall>c \<in> set (dropWhile isWhiteSpace s). isWhiteSpace c"
    show "\<forall>c \<in> set s. isWhiteSpace c"
    proof (cases "dropWhile isWhiteSpace s")
      case Nil
      then show ?thesis by (simp add: dropWhile_eq_Nil_conv)
    next
      case (Cons x xs)
      then have "\<not> isWhiteSpace x" using hd_dropWhile[of isWhiteSpace s] by auto
      with a Cons show ?thesis by auto
    qed
  next
    assume "\<forall>c \<in> set s. isWhiteSpace c"
    then show "\<forall>c \<in> set (dropWhile isWhiteSpace s). isWhiteSpace c"
      using set_dropWhileD by fastforce
  qed
  finally show ?thesis .
qed

lemma validShares_strings:
  assumes "\<forall>e \<in> set entries. \<not> notAShare e"
  shows "validShares entries = Inr (nonEmptyShares entries)"
  using assms
proof (induction entries)
  case Nil
  then show ?case by (simp add: nonEmptyShares_def)
next
  case (Cons e entries)
  then have ih: "validShares entries = Inr (nonEmptyShares entries)" by simp
  from Cons.prems have "\<not> notAShare e" by simp
  then show ?case
    by (cases e) (auto simp: ih notAShare_def nonEmptyShares_def trim_empty_iff)
qed

lemma validShares_throws:
  assumes "\<exists>e \<in> set entries. notAShare e"
  shows "validShares entries = Inl ''s.trim is not a function''"
  using assms
proof (induction entries)
  case Nil
  then show ?case by simp
next
  case (Cons e entries)
  show ?case
  proof (cases "notAShare e")
    case True
    then show ?thesis by (cases e) (auto simp: notAShare_def)
  next
    case False
    with Cons.prems have "\<exists>e \<in> set entries. notAShare e" by simp
    from Cons.IH[OF this] False show ?thesis
      by (cases e) (auto simp: notAShare_def)
  qed
qed

lemma length_nonEmptyShares_le: "length (nonEmptyShares entries) \<le> length entries"
proof (induction entries)
  case Nil
  then show ?case by (simp add: nonEmptyShares_def)
next
  case (Cons e entries)
  then show ?case by (cases e) (auto simp: nonEmptyShares_def)
qed

text \<open>The handler on a request that passes its two tests and whose content id converts.\<close>

lemma reconstruct_accepted:
  assumes "3 \<le> length entries" and "truthy cidValue" and "templateString env cidValue = Inr cid"
  shows "reconstruct env (Some (JArray entries)) (Some cidValue) =
     (let lg1 = [[JString (nl # '' Reconstructing key for CID: '' @ cid)],
                 [JString (''Received '' @ decimal (length entries) @ '' shares'')]]
      in if \<exists>e \<in> set entries. notAShare e
         then reconstructFailed lg1 [] ''s.trim is not a function''
         else if length (nonEmptyShares entries) < 3
         then \<lparr>logged = lg1, calls = [],
               reply = jsonError 400 ''At least 3 valid shares are required''\<rparr>
         else
           let vs = nonEmptyShares entries;
               lg2 = lg1 @ sharePrefixLog vs
           in case secretsCombine env (take 3 vs) of
                Inl message \<Rightarrow>
                  \<lparr>logged = lg2 @ [[JString '' Failed to reconstruct key:'', JString message]],
                   calls = [SecretsCombine (take 3 vs)],
                   reply = jsonErrorDetails 400
                     ''Failed to reconstruct key. Shares may be invalid or incompatible.'' message\<rparr>
              | Inr key \<Rightarrow>
                  let lg3 = lg2
                        @ [[JString '' Key reconstructed successfully''],
                           [JString ''Reconstructed key (first 16 chars):'',
                            JString (take 16 key @ ''...'')],
                           [JString '' Fetching encrypted file from IPFS...'']]
                  in case axiosGet env (''https://gateway.pinata.cloud/ipfs/'' @ cid) of
                       Inl message \<Rightarrow>
                         \<lparr>logged = lg3
                            @ [[JString ''Error fetching from IPFS:'', JString message],
                               [JString '' Failed to fetch from IPFS:'',
                                JString ''Failed to fetch file from IPFS'']],
                          calls = [SecretsCombine (take 3 vs),
                                   AxiosGet (''https://gateway.pinata.cloud/ipfs/'' @ cid)],
                          reply = jsonErrorDetails 500 ''Failed to fetch file from IPFS''
                            ''Failed to fetch file from IPFS''\<rparr>
                     | Inr dat \<Rightarrow>
                         let lg4 = lg3
                               @ [[JString ('' Fetched encrypted file (''
                                     @ decimal (length dat) @ '' bytes)'')],
                                  [JString '' Decrypting file...'']]
                         in case decryptData (aesDecryptBlock env) dat key of
                              Inl e \<Rightarrow>
                                \<lparr>logged = lg4
                                   @ [[JString '' Decryption failed:'', JString (cryptoMessage e)]],
                                 calls = [SecretsCombine (take 3 vs),
                                          AxiosGet (''https://gateway.pinata.cloud/ipfs/'' @ cid),
                                          Decipher dat key],
                                 reply = jsonErrorDetails 500
                                   ''Decryption failed. The key may be incorrect.''
                                   (cryptoMessage e)\<rparr>
                            | Inr plain \<Rightarrow>
                                \<lparr>logged = lg4
                                   @ [[JString ('' File decrypted successfully (''
                                         @ decimal (length plain) @ '' bytes)'')],
                                      [JString ('' Decrypted file sent to client'' @ [nl])]],
                                 calls = [SecretsCombine (take 3 vs),
                                          AxiosGet (''https://gateway.pinata.cloud/ipfs/'' @ cid),
                                          Decipher dat key],
                                 reply = \<lparr>status = 200, body = FileBody
                                   [(''Content-Type'', ''application/octet-stream''),
                                    (''Content-Disposition'',
                                     ''attachment; filename='' @ [CHR 0x22]
                                       @ ''decrypted_file'' @ [CHR 0x22])]
                                   plain\<rparr>\<rparr>)"
proof (cases "\<exists>e \<in> set entries. notAShare e")
  case True
  from validShares_throws[OF this] True assms show ?thesis
    by (simp add: reconstruct_def Let_def)
next
  case False
  then have "validShares entries = Inr (nonEmptyShares entries)"
    by (intro validShares_strings) simp
  with False assms show ?thesis
    by (simp add: reconstruct_def Let_def fetchFromIPFS_def split: sum.splits)
qed


text \<open>
  Claim C8. For a request that passes validation: if \<open>combine\<close> fails, the response
  is the reconstruction error (status 400) and \<open>combine\<close> is the only external call
  made; if the fetch fails, the response is the fetch error (status 500) and
  nothing is deciphered; if deciphering fails after a successful fetch, the response
  is the decryption error; and the three error responses differ from each other
  whatever their details.
\<close>

theorem reconstruct_failures:
  assumes "reqCid = Some cidValue" and "truthy cidValue" and "templateString env cidValue = Inr cid"
    and "\<forall>e \<in> set entries. \<not> notAShare e" and "3 \<le> length (nonEmptyShares entries)"
  shows "(secretsCombine env (take 3 (nonEmptyShares entries)) = Inl m1 \<longrightarrow>
            reply (reconstruct env (Some (JArray entries)) reqCid) = jsonErrorDetails 400
              ''Failed to reconstruct key. Shares may be invalid or incompatible.'' m1
          \<and> calls (reconstruct env (Some (JArray entries)) reqCid)
              = [SecretsCombine (take 3 (nonEmptyShares entries))])
       \<and> (secretsCombine env (take 3 (nonEmptyShares entries)) = Inr key
          \<and> axiosGet env (''https://gateway.pinata.cloud/ipfs/'' @ cid) = Inl m2 \<longrightarrow>
            reply (reconstruct env (Some (JArray entries)) reqCid) = jsonErrorDetails 500
              ''Failed to fetch file from IPFS'' ''Failed to fetch file from IPFS''
          \<and> calls (reconstruct env (Some (JArray entries)) reqCid)
              = [SecretsCombine (take 3 (nonEmptyShares entries)),
                 AxiosGet (''https://gateway.pinata.cloud/ipfs/'' @ cid)])
       \<and> (secretsCombine env (take 3 (nonEmptyShares entries)) = Inr key
          \<and> axiosGet env (''https://gateway.pinata.cloud/ipfs/'' @ cid) = Inr dat
          \<and> decryptData (aesDecryptBlock env) dat key = Inl e \<longrightarrow>
            reply (reconstruct env (Some (JArray entries)) reqCid) = jsonErrorDetails 500
              ''Decryption failed. The key may be incorrect.'' (cryptoMessage e)
          \<and> calls (reconstruct env (Some (JArray entries)) reqCid)
              = [SecretsCombine (take 3 (nonEmptyShares entries)),
                 AxiosGet (''https://gateway.pinata.cloud/ipfs/'' @ cid),
                 Decipher dat key])
       \<and> jsonErrorDetails 400
            ''Failed to reconstruct key. Shares may be invalid or incompatible.'' d1
          \<noteq> jsonErrorDetails 500 ''Failed to fetch file from IPFS'' d2
       \<and> jsonErrorDetails 500 ''Failed to fetch file from IPFS'' d2
          \<noteq> jsonErrorDetails 500 ''Decryption failed. The key may be incorrect.'' d3
       \<and> jsonErrorDetails 400
            ''Failed to reconstruct key. Shares may be invalid or incompatible.'' d1
          \<noteq> jsonErrorDetails 500 ''Decryption failed. The key may be incorrect.'' d3"
proof -
  from assms(5) length_nonEmptyShares_le[of entries] have "3 \<le> length entries" by simp
  from reconstruct_accepted[OF this assms(2,3)] assms(1,4,5) show ?thesis
    by (auto simp: Let_def jsonErrorDetails_def)
qed









lemma example_beforeSplit:
  "\<exists>lg cs. beforeSplit (exampleEnv up) g isoDate exampleFile = Inr (lg, cs, ''QmExample'', exampleShares)"
  unfolding beforeSplit_eq by (simp add: exampleEnv_def)

lemma example_delivered:
  "delivered (exampleEnv up) cid shares i \<longleftrightarrow> storeShareUrl i \<in> set (map storeShareUrl up)"
  by (simp add: delivered_def exampleEnv_def)

lemma example_urls:
  "storeShareUrl 0 = ''http://localhost:4001/store-share''"
  "storeShareUrl 1 = ''http://localhost:4002/store-share''"
  "storeShareUrl 2 = ''http://localhost:4003/store-share''"
  "storeShareUrl 3 = ''http://localhost:4004/store-share''"
  "storeShareUrl 4 = ''http://localhost:4005/store-share''"
  "storeShareUrl (Suc 0) = ''http://localhost:4002/store-share''"
  by (simp_all add: storeShareUrl_def KEEPER_NODES_def)

lemma example_successes:
  "successes (exampleEnv [0, 1, 2]) cid shares = 3"
  "successes (exampleEnv [0, 1]) cid shares = 2"
  "successes (exampleEnv [0, 1, 2, 3]) cid shares = 4"
  "successes (exampleEnv [0, 1, 2, 3, 4]) cid shares = 5"
  by (simp_all add: successes_def upt_5 example_delivered example_urls)

theorem upload_quorum_witness:
  "status (reply (upload (exampleEnv [0, 1, 2]) exampleRng exampleDate (Some exampleFile))) = 200
   \<and> reply (upload (exampleEnv [0, 1]) exampleRng exampleDate (Some exampleFile)) =
        \<lparr>status = 500, body = JsonBody (JObject
          [(''error'', JString
              ''Failed to distribute enough shares to keeper nodes. Need at least 3 keepers online.''),
           (''successfulDistributions'', JNumber 2),
           (''required'', JNumber 3),
           (''totalKeepers'', JNumber 5)])\<rparr>"
proof -
  obtain lg cs where a: "beforeSplit (exampleEnv [0, 1, 2]) exampleRng exampleDate exampleFile
      = Inr (lg, cs, ''QmExample'', exampleShares)"
    using example_beforeSplit by blast
  obtain lg' cs' where b: "beforeSplit (exampleEnv [0, 1]) exampleRng exampleDate exampleFile
      = Inr (lg', cs', ''QmExample'', exampleShares)"
    using example_beforeSplit by blast
  have l: "length exampleShares = 5" by (simp add: exampleShares_def)
  show ?thesis
    using upload_quorum[OF a l] upload_quorum[OF b l]
      example_successes(1)[of "''QmExample''" exampleShares]
      example_successes(2)[of "''QmExample''" exampleShares]
    by simp
qed

theorem upload_keeper_urls_witness:
  "replyField (upload (exampleEnv [0, 1, 2, 4]) exampleRng exampleDate (Some exampleFile))
      ''keeperUrls''
     = Some (JArray [JString ''http://localhost:4001'', JString ''http://localhost:4002'',
                     JString ''http://localhost:4003'', JString ''http://localhost:4005''])"
proof -
  obtain lg cs where a: "beforeSplit (exampleEnv [0, 1, 2, 4]) exampleRng exampleDate exampleFile
      = Inr (lg, cs, ''QmExample'', exampleShares)"
    using example_beforeSplit by blast
  have l: "length exampleShares = 5" by (simp add: exampleShares_def)
  have n: "successes (exampleEnv [0, 1, 2, 4]) ''QmExample'' exampleShares = 4"
    by (simp add: successes_def upt_5 example_delivered example_urls)
  have "3 \<le> successes (exampleEnv [0, 1, 2, 4]) ''QmExample'' exampleShares"
    unfolding n by simp
  from upload_keeper_urls[OF a l this] show ?thesis
    by (auto simp: upt_5 example_delivered example_urls KEEPER_NODES_def)
qed

lemma example_all_up:
  obtains lg cs where
    "beforeSplit (exampleEnv [0, 1, 2, 3, 4]) exampleRng exampleDate exampleFile
       = Inr (lg, cs, ''QmExample'', exampleShares)"
  using example_beforeSplit by blast

text \<open>
  Claim C5 fails as stated: with all five keepers reachable, the response returns two
  backup shares, and the first of them is the share the second keeper accepted.
\<close>

theorem backup_shares_counterexample:
  "replyField (upload (exampleEnv [0, 1, 2, 3, 4]) exampleRng exampleDate (Some exampleFile))
      ''manualShares''
     = Some (JArray [JString ''02b8d4fa'', JString ''03c9e50b''])
   \<and> length [JString ''02b8d4fa'', JString ''03c9e50b''] \<noteq> 5 - 1
   \<and> AxiosPost ''http://localhost:4002/store-share''
        (JObject [(''id'', JString ''QmExample''), (''share'', JString ''02b8d4fa'')])
        \<in> set (calls (upload (exampleEnv [0, 1, 2, 3, 4]) exampleRng exampleDate (Some exampleFile)))
   \<and> axiosPost (exampleEnv [0, 1, 2, 3, 4]) ''http://localhost:4002/store-share''
        (JObject [(''id'', JString ''QmExample''), (''share'', JString ''02b8d4fa'')])
        = Inr (JObject [(''success'', JBool True)])"
proof -
  obtain lg cs where a:
    "beforeSplit (exampleEnv [0, 1, 2, 3, 4]) exampleRng exampleDate exampleFile
       = Inr (lg, cs, ''QmExample'', exampleShares)"
    by (rule example_all_up)
  have l: "length exampleShares = 5" by (simp add: exampleShares_def)
  have n: "successes (exampleEnv [0, 1, 2, 3, 4]) ''QmExample'' exampleShares = 5"
    by (rule example_successes)
  have r: "reply (upload (exampleEnv [0, 1, 2, 3, 4]) exampleRng exampleDate (Some exampleFile)) =
        \<lparr>status = 200, body = JsonBody (JObject
          [(''ipfsCid'', JString ''QmExample''),
           (''sharesDistributed'', JNumber 5),
           (''keeperUrls'', JArray (map JString
              (map (\<lambda>i. KEEPER_NODES ! i)
                (filter (delivered (exampleEnv [0, 1, 2, 3, 4]) ''QmExample'' exampleShares) [0..<5])))),
           (''manualShares'', JArray [JString (exampleShares ! 1), JString (exampleShares ! 2)])])\<rparr>"
    unfolding upload_reaches[OF a] afterSplit_reply[OF l] n by simp
  have c: "calls (upload (exampleEnv [0, 1, 2, 3, 4]) exampleRng exampleDate (Some exampleFile))
      = cs @ distributionCalls ''QmExample'' exampleShares"
    unfolding upload_reaches[OF a] afterSplit_calls ..
  have d: "AxiosPost ''http://localhost:4002/store-share''
        (JObject [(''id'', JString ''QmExample''), (''share'', JString ''02b8d4fa'')])
        \<in> set (distributionCalls ''QmExample'' exampleShares)"
    unfolding distributionCalls_def distributionCount_5[OF l] upt_5
    by (simp add: example_urls storeShareBody_def exampleShares_def)
  show ?thesis
    unfolding c replyField_def r using d
    by (simp add: exampleShares_def exampleEnv_def example_urls)
qed

theorem upload_manual_shares_witness:
  "3 \<le> successes (exampleEnv [0, 1, 2, 3]) ''QmExample'' exampleShares
   \<and> replyField (upload (exampleEnv [0, 1, 2, 3]) exampleRng exampleDate (Some exampleFile))
      ''manualShares''
     = Some (JArray [JString ''02b8d4fa'', JString ''03c9e50b''])
   \<and> AxiosPost ''http://localhost:4003/store-share''
        (JObject [(''id'', JString ''QmExample''), (''share'', JString ''03c9e50b'')])
        \<in> set (calls (upload (exampleEnv [0, 1, 2, 3]) exampleRng exampleDate (Some exampleFile)))
   \<and> delivered (exampleEnv [0, 1, 2, 3]) ''QmExample'' exampleShares 2"
proof -
  obtain lg cs where a:
    "beforeSplit (exampleEnv [0, 1, 2, 3]) exampleRng exampleDate exampleFile
       = Inr (lg, cs, ''QmExample'', exampleShares)"
    using example_beforeSplit by blast
  have l: "length exampleShares = 5" by (simp add: exampleShares_def)
  have n: "successes (exampleEnv [0, 1, 2, 3]) ''QmExample'' exampleShares = 4"
    by (rule example_successes)
  then have "3 \<le> successes (exampleEnv [0, 1, 2, 3]) ''QmExample'' exampleShares"
    by simp
  from upload_manual_shares[OF a l this] this show ?thesis
    by (simp add: exampleShares_def KEEPER_NODES_def exampleEnv_def example_urls)
qed





lemma example_template: "templateString env (JString s) = Inr s"
  by (simp add: templateString_def)




lemma decrypt_empty: "decryptData D [] zeroKey = Inl InvalidIvLength"
proof -
  have z: "zeroKey = toHex (replicate 32 0)"
    by code_simp
  have "bufferFromHex zeroKey = replicate 32 0"
    unfolding z by (rule bufferFromHex_toHex)
  then have "length (bufferFromHex zeroKey) = 32"
    by simp
  then show ?thesis
    by (simp add: decryptData_def aes256cbcDecrypt_def)
qed

theorem reconstruct_failures_witness:
  "reply (reconstruct (exampleEnv [])
      (Some (JArray [JString ''01a7c3e9'', JString ''02b8d4fa'', JString ''03c9e50b'']))
      (Some (JString ''QmExample'')))
     = jsonErrorDetails 400
         ''Failed to reconstruct key. Shares may be invalid or incompatible.'' ''Invalid share''
   \<and> calls (reconstruct (exampleEnv [])
      (Some (JArray [JString ''01a7c3e9'', JString ''02b8d4fa'', JString ''03c9e50b'']))
      (Some (JString ''QmExample'')))
     = [SecretsCombine [''01a7c3e9'', ''02b8d4fa'', ''03c9e50b'']]
   \<and> reply (reconstruct ((exampleEnv [])\<lparr>secretsCombine := (\<lambda>shares. Inr zeroKey)\<rparr>)
      (Some (JArray [JString ''01a7c3e9'', JString ''02b8d4fa'', JString ''03c9e50b'']))
      (Some (JString ''QmExample'')))
     = jsonErrorDetails 500 ''Failed to fetch file from IPFS'' ''Failed to fetch file from IPFS''
   \<and> reply (reconstruct
        ((exampleEnv [])\<lparr>secretsCombine := (\<lambda>shares. Inr zeroKey), axiosGet := (\<lambda>url. Inr [])\<rparr>)
      (Some (JArray [JString ''01a7c3e9'', JString ''02b8d4fa'', JString ''03c9e50b'']))
      (Some (JString ''QmExample'')))
     = jsonErrorDetails 500 ''Decryption failed. The key may be incorrect.''
         ''Invalid initialization vector''"
proof -
  have v: "nonEmptyShares [JString ''01a7c3e9'', JString ''02b8d4fa'', JString ''03c9e50b'']
      = [''01a7c3e9'', ''02b8d4fa'', ''03c9e50b'']"
    by (simp add: nonEmptyShares_def isWhiteSpace_def)
  have l: "3 \<le> length (nonEmptyShares
      [JString ''01a7c3e9'', JString ''02b8d4fa'', JString ''03c9e50b''])"
    unfolding v by simp
  have n: "\<forall>e \<in> set [JString ''01a7c3e9'', JString ''02b8d4fa'', JString ''03c9e50b'']. \<not> notAShare e"
    by (simp add: notAShare_def)
  have c: "truthy (JString ''QmExample'')" by simp
  show ?thesis
    using reconstruct_failures[OF refl c example_template n l, of "exampleEnv []" "''Invalid share''"]
      reconstruct_failures[OF refl c example_template n l,
        of "(exampleEnv [])\<lparr>secretsCombine := (\<lambda>shares. Inr zeroKey)\<rparr>" _ zeroKey
           "''Request failed with status code 404''"]
      reconstruct_failures[OF refl c example_template n l,
        of "(exampleEnv [])\<lparr>secretsCombine := (\<lambda>shares. Inr zeroKey), axiosGet := (\<lambda>url. Inr [])\<rparr>"
           _ zeroKey _ "[]" InvalidIvLength]
    unfolding v
    by (simp add: exampleEnv_def decrypt_empty cryptoMessage_def)
qed

section \<open>Properties of the cipher\<close>

lemma xorBytes_length: "length (xorBytes a b) = min (length a) (length b)"
  by (simp add: xorBytes_def)

lemma xorBytes_cancel: "length a = length b \<Longrightarrow> xorBytes (xorBytes a b) b = a"
  unfolding xorBytes_def
  by (induction a b rule: list_induct2) (simp_all add: xor.assoc)

lemma pkcs7Pad_length: "length (pkcs7Pad dat) mod 16 = 0" "pkcs7Pad dat \<noteq> []"
proof -
  have "(length dat + (16 - length dat mod 16)) mod 16 = 0"
    by presburger
  then show "length (pkcs7Pad dat) mod 16 = 0"
    by (simp add: pkcs7Pad_def Let_def)
  have "16 - length dat mod 16 \<noteq> 0" by simp
  then show "pkcs7Pad dat \<noteq> []"
    by (simp add: pkcs7Pad_def Let_def)
qed

lemma pkcs7Unpad_pad: "pkcs7Unpad (pkcs7Pad dat) = Inr dat"
proof -
  define n where "n = 16 - length dat mod 16"
  have n: "0 < n" "n \<le> 16" by (simp_all add: n_def)
  then have u: "unat (of_nat n :: 8 word) = n"
    by (simp add: unat_of_nat)
  have p: "pkcs7Pad dat = dat @ replicate n (of_nat n)"
    by (simp add: pkcs7Pad_def n_def Let_def)
  from n have l: "last (dat @ replicate n (of_nat n :: 8 word)) = of_nat n"
    by (cases n) simp_all
  show ?thesis
    unfolding p pkcs7Unpad_def l u Let_def using n by auto
qed

lemma cbc_roundtrip:
  assumes "\<And>b. length b = 16 \<Longrightarrow> length (f b) = 16 \<and> g (f b) = b"
  shows "length prev = 16 \<Longrightarrow> length dat mod 16 = 0 \<Longrightarrow>
         length (cbcEncrypt f prev dat) = length dat
         \<and> cbcDecrypt g prev (cbcEncrypt f prev dat) = dat"
proof (induction "length dat" arbitrary: dat prev rule: less_induct)
  case less
  show ?case
  proof (cases "dat = []")
    case True
    then show ?thesis by (simp add: cbcEncrypt.simps cbcDecrypt.simps)
  next
    case False
    with less.prems(2) have len: "16 \<le> length dat"
      by (cases "length dat < 16") auto
    define c where "c = f (xorBytes (take 16 dat) prev)"
    from len less.prems(1) have lx: "length (xorBytes (take 16 dat) prev) = 16"
      by (simp add: xorBytes_length)
    from assms[OF lx] have c: "length c = 16" "g c = xorBytes (take 16 dat) prev"
      unfolding c_def by blast+
    from len less.prems(2) have m: "length (drop 16 dat) mod 16 = 0"
      unfolding length_drop by presburger
    from len have "length (drop 16 dat) < length dat" by simp
    from less.hyps[OF this c(1) m]
    have ih: "length (cbcEncrypt f c (drop 16 dat)) = length (drop 16 dat)"
      "cbcDecrypt g c (cbcEncrypt f c (drop 16 dat)) = drop 16 dat"
      by simp_all
    have e: "cbcEncrypt f prev dat = c @ cbcEncrypt f c (drop 16 dat)"
      using False by (subst cbcEncrypt.simps) (simp add: c_def Let_def)
    have x: "xorBytes (g c) prev = take 16 dat"
      unfolding c(2) using len less.prems(1) by (intro xorBytes_cancel) simp
    have "cbcDecrypt g prev (c @ cbcEncrypt f c (drop 16 dat))
        = xorBytes (g c) prev @ cbcDecrypt g c (cbcEncrypt f c (drop 16 dat))"
    proof -
      from c(1) have "c \<noteq> []" by auto
      with c(1) show ?thesis by (subst cbcDecrypt.simps) (simp add: Let_def)
    qed
    with ih x len show ?thesis
      unfolding e by (simp add: c(1))
  qed
qed

text \<open>
  Claim C2. For every plaintext, every freshly generated key (the hexadecimal string
  of 32 random bytes) and every fresh initialisation vector, encryption succeeds and
  returns the vector followed by the ciphertext, and decrypting that blob under the
  same key returns the plaintext. The block permutation of AES under a 32-byte key
  and its inverse are parameters: all that is used of them is that they map 16-byte
  blocks to 16-byte blocks and that the second undoes the first.
\<close>

theorem decrypt_encrypt_roundtrip:
  assumes "\<And>k b. length k = 32 \<Longrightarrow> length b = 16 \<Longrightarrow> length (E k b) = 16 \<and> D k (E k b) = b"
  shows "\<exists>blob g2. encryptData E plaintext (fst (generateEncryptionKey g)) g1 = Inr (blob, g2)
           \<and> take 16 blob = fst (randomBytes g1 16)
           \<and> decryptData D blob (fst (generateEncryptionKey g)) = Inr plaintext"
proof -
  define kb where "kb = map g [0..<32]"
  define iv where "iv = map g1 [0..<16]"
  have k: "length kb = 32" "length iv = 16" by (simp_all add: kb_def iv_def)
  have key: "bufferFromHex (fst (generateEncryptionKey g)) = kb"
    by (simp add: generateEncryptionKey_eq bufferFromHex_toHex kb_def)
  have r: "randomBytes g1 16 = (iv, (\<lambda>i. g1 (i + 16)))"
    by (simp add: randomBytes_def iv_def)
  have cb: "length (cbcEncrypt (E kb) iv (pkcs7Pad plaintext)) = length (pkcs7Pad plaintext)"
    "cbcDecrypt (D kb) iv (cbcEncrypt (E kb) iv (pkcs7Pad plaintext)) = pkcs7Pad plaintext"
    using cbc_roundtrip[of "E kb" "D kb" iv "pkcs7Pad plaintext"] assms[OF k(1)] k(2)
      pkcs7Pad_length(1)[of plaintext]
    by simp_all
  have enc: "encryptData E plaintext (fst (generateEncryptionKey g)) g1
      = Inr (iv @ cbcEncrypt (E kb) iv (pkcs7Pad plaintext), (\<lambda>i. g1 (i + 16)))"
    by (simp add: encryptData_def key r aes256cbcEncrypt_def k)
  have ne: "cbcEncrypt (E kb) iv (pkcs7Pad plaintext) \<noteq> []"
    using cb(1) pkcs7Pad_length(2)[of plaintext] by (metis length_0_conv)
  have dec: "decryptData D (iv @ cbcEncrypt (E kb) iv (pkcs7Pad plaintext))
      (fst (generateEncryptionKey g)) = Inr plaintext"
    using ne by (simp add: decryptData_def key aes256cbcDecrypt_def k cb pkcs7Pad_length pkcs7Unpad_pad)
  show ?thesis
    unfolding enc using dec by (simp add: r k)
qed

lemma toyBlock_inverse:
  "length k = 32 \<Longrightarrow> length b = 16 \<Longrightarrow> length (toyBlock k b) = 16 \<and> toyBlock k (toyBlock k b) = b"
  by (simp add: toyBlock_def xorBytes_length xorBytes_cancel)

lemma toy_encrypt:
  "map_sum id fst (encryptData toyBlock [0x68, 0x69] (fst (generateEncryptionKey countingRng))
      (snd (generateEncryptionKey countingRng)))
   = Inr 
       [32, 33, 34, 35, 36, 37, 38, 39, 40, 41, 42, 43, 44, 45, 46, 47, 72, 73, 46, 46, 46, 46, 46, 46, 46, 46, 46, 46, 46, 46, 46, 46]"
  by code_simp

theorem decrypt_encrypt_roundtrip_witness:
  "map_sum id fst (encryptData toyBlock [0x68, 0x69] (fst (generateEncryptionKey countingRng))
      (snd (generateEncryptionKey countingRng)))
     = Inr 
       [32, 33, 34, 35, 36, 37, 38, 39, 40, 41, 42, 43, 44, 45, 46, 47, 72, 73, 46, 46, 46, 46, 46, 46, 46, 46, 46, 46, 46, 46, 46, 46]
   \<and> decryptData toyBlock 
       [32, 33, 34, 35, 36, 37, 38, 39, 40, 41, 42, 43, 44, 45, 46, 47, 72, 73, 46, 46, 46, 46, 46, 46, 46, 46, 46, 46, 46, 46, 46, 46]
       (fst (generateEncryptionKey countingRng)) = Inr [0x68, 0x69]"
proof -
  obtain blob g2 where
    e: "encryptData toyBlock [0x68, 0x69] (fst (generateEncryptionKey countingRng))
          (snd (generateEncryptionKey countingRng)) = Inr (blob, g2)"
    and d: "decryptData toyBlock blob (fst (generateEncryptionKey countingRng)) = Inr [0x68, 0x69]"
    using decrypt_encrypt_roundtrip[of toyBlock toyBlock "[0x68, 0x69]" countingRng
        "snd (generateEncryptionKey countingRng)"] toyBlock_inverse
    by blast
  from e toy_encrypt have "blob = 
       [32, 33, 34, 35, 36, 37, 38, 39, 40, 41, 42, 43, 44, 45, 46, 47, 72, 73, 46, 46, 46, 46, 46, 46, 46, 46, 46, 46, 46, 46, 46, 46]"
    by simp
  with d toy_encrypt show ?thesis by simp
qed

section \<open>Properties of the splitter\<close>

lemma lagrange3_field:
  fixes x1 x2 x3 s a b :: "'a :: field"
  assumes "x1 \<noteq> x2" "x1 \<noteq> x3" "x2 \<noteq> x3"
  shows "(s + x1 * (a + x1 * b)) * (((0 - x2) / (x1 - x2)) * ((0 - x3) / (x1 - x3)))
       + (s + x2 * (a + x2 * b)) * (((0 - x1) / (x2 - x1)) * ((0 - x3) / (x2 - x3)))
       + (s + x3 * (a + x3 * b)) * (((0 - x1) / (x3 - x1)) * ((0 - x2) / (x3 - x2))) = s"
proof -
  have d: "x1 - x2 \<noteq> 0" "x1 - x3 \<noteq> 0" "x2 - x3 \<noteq> 0" "x2 - x1 \<noteq> 0" "x3 - x1 \<noteq> 0" "x3 - x2 \<noteq> 0"
    using assms by simp_all
  show ?thesis
    using d by (simp add: divide_simps) (simp add: algebra_simps)
qed

lemma lagrangeAtZero_3:
  assumes "x1 \<noteq> x2" "x1 \<noteq> x3" "x2 \<noteq> x3"
  shows "lagrangeAtZero [(x1, polyEval [s, a, b] x1), (x2, polyEval [s, a, b] x2),
                         (x3, polyEval [s, a, b] x3)] = s"
proof -
  have u: "[0..<3] = [0, 1, 2]" by (simp add: upt_rec)
  show ?thesis
    using lagrange3_field[OF assms, of s a b]
    by (simp add: lagrangeAtZero_def polyEval_def u ac_simps)
qed

lemma split_nth:
  assumes "i < n"
  shows "split rnd secret n k ! i =
     \<lparr>xCoord = GF (of_nat (Suc i)),
      evals = map (\<lambda>pos. polyEval (secret ! pos # map (rnd pos) [1..<k]) (GF (of_nat (Suc i))))
                [0..<length secret]\<rparr>"
  using assms unfolding split_def by (simp del: upt_Suc)

lemma xCoord_inj:
  assumes "i < 255" "j < 255" "i \<noteq> j"
  shows "GF (of_nat (Suc i)) \<noteq> GF (of_nat (Suc j))"
proof -
  have "(of_nat (Suc i) :: 8 word) \<noteq> of_nat (Suc j)"
    using assms by (simp add: word_of_nat_eq_iff take_bit_nat_eq_self del: of_nat_Suc)
  then show ?thesis by simp
qed

lemma combine_split_3:
  assumes "n \<le> 255" "i < n" "j < n" "l < n" "i \<noteq> j" "i \<noteq> l" "j \<noteq> l"
  shows "combine [split rnd secret n 3 ! i, split rnd secret n 3 ! j, split rnd secret n 3 ! l]
       = Inr secret"
proof -
  have u: "[1..<3] = [1, 2]" by (simp add: upt_rec)
  from assms have b: "i < 255" "j < 255" "l < 255" by simp_all
  note x = xCoord_inj[OF b(1) b(2) assms(5)] xCoord_inj[OF b(1) b(3) assms(6)]
    xCoord_inj[OF b(2) b(3) assms(7)]
  have "combine [split rnd secret n 3 ! i, split rnd secret n 3 ! j, split rnd secret n 3 ! l]
      = Inr (map (\<lambda>pos. secret ! pos) [0..<length secret])"
    unfolding split_nth[OF assms(2)] split_nth[OF assms(3)] split_nth[OF assms(4)] combine_def u
    using x by (simp add: lagrangeAtZero_3 del: of_nat_Suc upt_Suc)
  then show ?thesis by (simp add: map_nth)
qed

lemma length_split: "length (split rnd secret n k) = n"
  by (simp add: split_def)

lemma decode_encode: "decodeShare (encodeShare sh) = Some sh"
proof -
  have "map GF (map byte xs) = xs" for xs
    by (induction xs) simp_all
  then show ?thesis
    by (simp add: decodeShare_def encodeShare_def bufferFromHex_toHex)
qed

lemma byte_GF: "map (byte \<circ> GF) bs = bs"
  by (induction bs) simp_all

text \<open>
  Claim C1. With the system's parameters N = 5 and K = 3, for every secret (a list of
  bytes of any length, so also the 32 bytes of a key) and every choice of the random
  coefficients, combining the shares at any three different positions of the five,
  in any order, returns the secret; and the same holds for the shares as strings:
  splitting the hexadecimal string of a key and combining any three of the five
  share strings returns that string.
\<close>

theorem any_three_shares_recover_secret:
  assumes "i < 5" and "j < 5" and "l < 5" and "i \<noteq> j" and "i \<noteq> l" and "j \<noteq> l"
  shows "combine [split rnd secret 5 3 ! i, split rnd secret 5 3 ! j, split rnd secret 5 3 ! l]
           = Inr secret
       \<and> combineStrings [shareStrings rnd (toHex key) 5 3 ! i, shareStrings rnd (toHex key) 5 3 ! j,
                         shareStrings rnd (toHex key) 5 3 ! l]
           = Inr (toHex key)"
proof
  show c: "combine [split rnd secret 5 3 ! i, split rnd secret 5 3 ! j, split rnd secret 5 3 ! l]
      = Inr secret" for secret
    using assms by (intro combine_split_3) simp_all
  have n: "shareStrings rnd (toHex key) 5 3 ! m = encodeShare (split rnd (map GF key) 5 3 ! m)"
    if "m < 5" for m
    using that by (simp add: shareStrings_def bufferFromHex_toHex length_split)
  show "combineStrings [shareStrings rnd (toHex key) 5 3 ! i, shareStrings rnd (toHex key) 5 3 ! j,
                        shareStrings rnd (toHex key) 5 3 ! l]
      = Inr (toHex key)"
    unfolding n[OF assms(1)] n[OF assms(2)] n[OF assms(3)]
    by (simp add: combineStrings_def decode_encode c byte_GF)
qed

lemma example_split:
  "split exampleCoeffs [GF 0x61, GF 0x62] 5 3 =
     [\<lparr>xCoord = GF 1, evals = [GF 98, GF 99]\<rparr>,
      \<lparr>xCoord = GF 2, evals = [GF 107, GF 86]\<rparr>,
      \<lparr>xCoord = GF 3, evals = [GF 104, GF 87]\<rparr>,
      \<lparr>xCoord = GF 4, evals = [GF 69, GF 210]\<rparr>,
      \<lparr>xCoord = GF 5, evals = [GF 70, GF 211]\<rparr>]"
  by code_simp

theorem any_three_shares_recover_secret_witness:
  "combine [\<lparr>xCoord = GF 5, evals = [GF 70, GF 211]\<rparr>,
            \<lparr>xCoord = GF 1, evals = [GF 98, GF 99]\<rparr>,
            \<lparr>xCoord = GF 3, evals = [GF 104, GF 87]\<rparr>]
     = Inr [GF 0x61, GF 0x62]
   \<and> combineStrings [shareStrings exampleCoeffs ''6162'' 5 3 ! 4,
                     shareStrings exampleCoeffs ''6162'' 5 3 ! 0,
                     shareStrings exampleCoeffs ''6162'' 5 3 ! 2]
     = Inr ''6162''"
proof -
  have h: "toHex [0x61, 0x62] = ''6162''"
    by code_simp
  have a: "(4 :: nat) < 5" "(0 :: nat) < 5" "(2 :: nat) < 5" "(4 :: nat) \<noteq> 0" "(4 :: nat) \<noteq> 2"
    "(0 :: nat) \<noteq> 2"
    by simp_all
  from any_three_shares_recover_secret[OF a, of exampleCoeffs "[GF 0x61, GF 0x62]" "[0x61, 0x62]"]
  show ?thesis
    unfolding example_split h by simp
qed

end
